theory Spec2Isabelle
  imports Main "HOL-Library.Extended_Nat" "HOL-Library.Char_ord" "HOL-Library.List_Lexorder"
begin

section \<open>Strings\<close>

text \<open>
  A JavaScript string is modelled as a \<^typ>\<open>string\<close>, one \<^typ>\<open>char\<close> per code unit, so
  the model covers the strings whose code units are below 256. \<open>length\<close> is the
  \<^verbatim>\<open>.length\<close> property.
\<close>

definition isWhiteSpace :: "char \<Rightarrow> bool" where
  \<comment> \<open>the white space and line terminators that \<^verbatim>\<open>String.prototype.trim\<close> strips,
      among the code units below 256: TAB, LF, VT, FF, CR, SP, NBSP\<close>
  "isWhiteSpace c \<longleftrightarrow>
     c = CHR 0x09 \<or> c = CHR 0x0A \<or> c = CHR 0x0B \<or> c = CHR 0x0C \<or> c = CHR 0x0D \<or>
     c = CHR 0x20 \<or> c = CHR 0xA0"

definition trim :: "string \<Rightarrow> string" where
  "trim s = rev (dropWhile isWhiteSpace (rev (dropWhile isWhiteSpace s)))"

definition isLineTerminator :: "char \<Rightarrow> bool" where
  "isLineTerminator c \<longleftrightarrow> c = CHR 0x0A \<or> c = CHR 0x0D"

definition isWordChar :: "char \<Rightarrow> bool" where
  \<comment> \<open>the regular expression class \<^verbatim>\<open>\w\<close>, that is \<^verbatim>\<open>[A-Za-z0-9_]\<close>\<close>
  "isWordChar c \<longleftrightarrow>
     (let n = (of_char c :: nat)
      in (65 \<le> n \<and> n \<le> 90) \<or> (97 \<le> n \<and> n \<le> 122) \<or> (48 \<le> n \<and> n \<le> 57) \<or> n = 95)"

definition startsWith :: "string \<Rightarrow> string \<Rightarrow> bool" where
  "startsWith s p \<longleftrightarrow> take (length p) s = p"

definition endsWith :: "string \<Rightarrow> string \<Rightarrow> bool" where
  "endsWith s p \<longleftrightarrow> length p \<le> length s \<and> drop (length s - length p) s = p"

definition charAt :: "string \<Rightarrow> nat \<Rightarrow> string" where
  \<comment> \<open>\<^verbatim>\<open>charAt\<close> past the end is the empty string\<close>
  "charAt s i = (if i < length s then [s ! i] else [])"

definition substr :: "string \<Rightarrow> nat \<Rightarrow> string" where
  \<comment> \<open>\<^verbatim>\<open>s.substr(start)\<close> with a start that is not negative\<close>
  "substr s start = drop start s"

definition substr2 :: "string \<Rightarrow> nat \<Rightarrow> nat \<Rightarrow> string" where
  \<comment> \<open>\<^verbatim>\<open>s.substr(start, len)\<close> with a start and a length that are not negative\<close>
  "substr2 s start len = take len (drop start s)"

definition slice :: "string \<Rightarrow> nat \<Rightarrow> nat \<Rightarrow> string" where
  \<comment> \<open>\<^verbatim>\<open>s.slice(from, to)\<close> with bounds that are not negative\<close>
  "slice s from to = take (to - from) (drop from s)"

datatype js_error = TypeError | ReferenceError | Error string

section \<open>HistoryController\<close>

record HistoryController =
  size :: nat
  entries :: "string list"
  cursor :: nat

definition HistoryController_new :: "nat \<Rightarrow> HistoryController" where
  "HistoryController_new sz = \<lparr>size = sz, entries = [], cursor = 0\<rparr>"

definition pop :: "'a list \<Rightarrow> 'a list" where
  \<comment> \<open>\<^verbatim>\<open>Array.prototype.pop\<close> takes no argument: \<^verbatim>\<open>entries.pop(0)\<close> removes the
      last element, whatever is passed\<close>
  "pop xs = butlast xs"

definition push :: "string \<Rightarrow> HistoryController \<Rightarrow> HistoryController" where
  "push entry h =
     (if trim entry = [] then h
      else if entries h \<noteq> [] \<and> entry = last (entries h) then h
      else let es = entries h @ [entry];
               es' = (if length es > size h then pop es else es)
           in h\<lparr>entries := es', cursor := length es'\<rparr>)"

definition rewind :: "HistoryController \<Rightarrow> HistoryController" where
  "rewind h = h\<lparr>cursor := length (entries h)\<rparr>"

definition at_index :: "'a list \<Rightarrow> nat \<Rightarrow> 'a option" where
  \<comment> \<open>an array read; out of range it is \<^verbatim>\<open>undefined\<close>, here \<open>None\<close>\<close>
  "at_index xs i = (if i < length xs then Some (xs ! i) else None)"

definition getPrevious :: "HistoryController \<Rightarrow> string option \<times> HistoryController" where
  "getPrevious h =
     (let idx = nat (max 0 (int (cursor h) - 1))
      in (at_index (entries h) idx, h\<lparr>cursor := idx\<rparr>))"

definition getNext :: "HistoryController \<Rightarrow> string option \<times> HistoryController" where
  "getNext h =
     (let idx = min (length (entries h)) (cursor h + 1)
      in (at_index (entries h) idx, h\<lparr>cursor := idx\<rparr>))"

section \<open>Utils: text geometry\<close>

function wordBoundaries_from :: "bool \<Rightarrow> nat \<Rightarrow> string \<Rightarrow> nat list" where
  \<comment> \<open>the \<^verbatim>\<open>rx.exec\<close> loop of \<^verbatim>\<open>/\w+/g\<close> over the rest of the input that starts at
      index \<open>i\<close>: each match is a maximal run of word characters\<close>
  "wordBoundaries_from leftSide i [] = []"
| "wordBoundaries_from leftSide i (c # cs) =
     (if isWordChar c
      then (let match0 = takeWhile isWordChar (c # cs)
            in (if leftSide then i else i + length match0)
               # wordBoundaries_from leftSide (i + length match0) (dropWhile isWordChar cs))
      else wordBoundaries_from leftSide (i + 1) cs)"
  by pat_completeness auto
termination
  by (relation "measure (\<lambda>(l, i, s). length s)")
     (auto intro: le_imp_less_Suc length_dropWhile_le)

definition wordBoundaries :: "string \<Rightarrow> bool \<Rightarrow> nat list" where
  "wordBoundaries input leftSide = wordBoundaries_from leftSide 0 input"

definition closestLeftBoundary :: "string \<Rightarrow> nat \<Rightarrow> nat" where
  "closestLeftBoundary input offset =
     (case find (\<lambda>x. x < offset) (rev (wordBoundaries input True)) of
        None \<Rightarrow> 0
      | Some found \<Rightarrow> found)"

definition closestRightBoundary :: "string \<Rightarrow> nat \<Rightarrow> nat" where
  "closestRightBoundary input offset =
     (case find (\<lambda>x. x > offset) (wordBoundaries input False) of
        None \<Rightarrow> length input
      | Some found \<Rightarrow> found)"

record colrow =
  row :: nat
  col :: nat

definition advance :: "string \<Rightarrow> nat \<Rightarrow> colrow \<Rightarrow> nat \<Rightarrow> colrow" where
  \<comment> \<open>one turn of the loop of \<^verbatim>\<open>offsetToColRow\<close>, at index \<open>i\<close>\<close>
  "advance input maxCols rc i =
     (let chr = charAt input i
      in if chr = [CHR 0x0A] then \<lparr>row = row rc + 1, col = 0\<rparr>
         else (let c = col rc + 1
               in if c > maxCols then \<lparr>row = row rc + 1, col = 0\<rparr>
                  else \<lparr>row = row rc, col = c\<rparr>))"

definition offsetToColRow :: "string \<Rightarrow> nat \<Rightarrow> nat \<Rightarrow> colrow" where
  "offsetToColRow input offset maxCols =
     foldl (advance input maxCols) \<lparr>row = 0, col = 0\<rparr> [0..<offset]"

definition countLines :: "string \<Rightarrow> nat \<Rightarrow> nat" where
  "countLines input maxCols = row (offsetToColRow input (length input) maxCols) + 1"

section \<open>Utils: incomplete input\<close>

definition match_all :: "char \<Rightarrow> string \<Rightarrow> string list" where
  \<comment> \<open>\<^verbatim>\<open>input.match(/c/g) || []\<close> for a one-character pattern: every occurrence,
      whatever precedes it\<close>
  "match_all c input = map (\<lambda>x. [x]) (filter (\<lambda>x. x = c) input)"

fun split_ops :: "string \<Rightarrow> string \<Rightarrow> string list" where
  \<comment> \<open>\<^verbatim>\<open>input.split(/(\|\||\||&&)/g)\<close>: the pieces and, the group capturing, the
      operators between them; \<open>acc\<close> is the piece being read. The alternatives are tried
      in the order of the pattern, at every index from the left.\<close>
  "split_ops acc [] = [acc]"
| "split_ops acc (a # b # rest) =
     (if a = CHR ''|'' \<and> b = CHR ''|'' then acc # ''||'' # split_ops [] rest
      else if a = CHR ''|'' then acc # ''|'' # split_ops [] (b # rest)
      else if a = CHR ''&'' \<and> b = CHR ''&'' then acc # ''&&'' # split_ops [] rest
      else split_ops (acc @ [a]) (b # rest))"
| "split_ops acc [a] =
     (if a = CHR ''|'' then acc # ''|'' # split_ops [] []
      else split_ops (acc @ [a]) [])"

definition isIncompleteInput :: "string \<Rightarrow> bool" where
  "isIncompleteInput input =
     (if trim input = [] then False
      else if length (match_all (CHR 0x27) input) mod 2 \<noteq> 0 then True
      else if length (match_all (CHR 0x22) input) mod 2 \<noteq> 0 then True
      else if trim (last (split_ops [] input)) = [] then True
      else if endsWith input [CHR 0x5C] \<and> \<not> endsWith input [CHR 0x5C, CHR 0x5C] then True
      else False)"

fun hasTailingWhitespace :: "string \<Rightarrow> bool" where
  \<comment> \<open>\<^verbatim>\<open>/[^\\][ \t]$/m\<close>: some character other than a backslash, then a space or a tab,
      then the end of the input or, the flag \<^verbatim>\<open>m\<close> given, a line terminator\<close>
  "hasTailingWhitespace (a # b # rest) =
     ((a \<noteq> CHR 0x5C \<and> (b = CHR 0x20 \<or> b = CHR 0x09) \<and>
       (case rest of [] \<Rightarrow> True | c # _ \<Rightarrow> isLineTerminator c))
      \<or> hasTailingWhitespace (b # rest))"
| "hasTailingWhitespace _ = False"

section \<open>Utils: completion\<close>

text \<open>
  \<^verbatim>\<open>parse\<close> is the tokenizer of the package shell-quote, which is not part of this
  program: the functions that call it take it as the parameter \<open>parse\<close>. It returns the
  tokens of its input, \<open>Inr\<close>, or throws, \<open>Inl\<close> (shell-quote throws an \<^verbatim>\<open>Error\<close> on a bad
  substitution such as \<^verbatim>\<open>echo ${\<close>). A token it returns is a string or an object (an
  operator, a comment, a glob).
\<close>

datatype token = TString string | TObject string

definition toString :: "token \<Rightarrow> string" where
  \<comment> \<open>the string that \<^verbatim>\<open>startsWith\<close> makes of its argument\<close>
  "toString t = (case t of TString s \<Rightarrow> s | TObject _ \<Rightarrow> ''[object Object]'')"

definition token_at :: "token list \<Rightarrow> int \<Rightarrow> token" where
  \<comment> \<open>\<^verbatim>\<open>tokens[index] || ""\<close>\<close>
  "token_at tokens index =
     (if 0 \<le> index \<and> index < int (length tokens) then tokens ! nat index else TString [])"

definition getLastToken :: "(string \<Rightarrow> js_error + token list) \<Rightarrow> string \<Rightarrow> js_error + token" where
  \<comment> \<open>\<^verbatim>\<open>tokens.pop() || ""\<close>; what \<open>parse\<close> throws is thrown on\<close>
  "getLastToken parse input =
     (if trim input = [] then Inr (TString [])
      else if hasTailingWhitespace input then Inr (TString [])
      else case parse input of
             Inl e \<Rightarrow> Inl e
           | Inr tokens \<Rightarrow> Inr (if tokens = [] then TString [] else last tokens))"

record 'a callback =
  fn :: "int \<Rightarrow> token list \<Rightarrow> 'a list \<Rightarrow> string + string list"
  args :: "'a list"

definition invoke :: "int \<Rightarrow> token list \<Rightarrow> string list \<times> string list \<Rightarrow> 'a callback
    \<Rightarrow> string list \<times> string list" where
  \<comment> \<open>the function reduced over the callbacks: the candidates so far and what
      \<^verbatim>\<open>console.error\<close> has printed; a provider that throws is \<open>Inl\<close> of what it threw\<close>
  "invoke index tokens acc cb =
     (case fn cb index tokens (args cb) of
        Inr r \<Rightarrow> (fst acc @ r, snd acc)
      | Inl e \<Rightarrow> (fst acc, snd acc @ [e]))"

definition target :: "token list \<Rightarrow> string \<Rightarrow> int \<times> string" where
  \<comment> \<open>the first lines of \<^verbatim>\<open>collectAutocompleteCandidates\<close>: the index and the expression
      that are completed, \<^verbatim>\<open>index\<close> and \<^verbatim>\<open>expr\<close>\<close>
  "target tokens input =
     (let index0 = int (length tokens) - 1;
          expr0 = toString (token_at tokens index0)
      in if trim input = [] then (0, [])
         else if hasTailingWhitespace input then (index0 + 1, [])
         else (index0, expr0))"

definition collectAutocompleteCandidates ::
    "(string \<Rightarrow> js_error + token list) \<Rightarrow> 'a callback list \<Rightarrow> string
      \<Rightarrow> js_error + string list \<times> string list" where
  \<comment> \<open>the candidates returned, and the errors printed to the console. The call of
      \<open>parse\<close> is the first statement, outside the \<^verbatim>\<open>try\<close>: what it throws is thrown on,
      before any provider is called\<close>
  "collectAutocompleteCandidates parse callbacks input =
     (case parse input of
        Inl e \<Rightarrow> Inl e
      | Inr tokens \<Rightarrow>
          (let index = fst (target tokens input);
               expr = snd (target tokens input);
               all = foldl (invoke index tokens) ([], []) callbacks
           in Inr (filter (\<lambda>txt. startsWith txt expr) (fst all), snd all)))"

fun scan_candidates :: "string \<Rightarrow> string \<Rightarrow> string list \<Rightarrow> string option option" where
  \<comment> \<open>the \<^verbatim>\<open>for\<close> loop of \<^verbatim>\<open>getSharedFragment\<close>: \<open>Some r\<close> when it returns \<open>r\<close>
      (\<open>None\<close> for \<^verbatim>\<open>null\<close>), \<open>None\<close> when it runs to its end\<close>
  "scan_candidates oldFragment fragment [] = None"
| "scan_candidates oldFragment fragment (c # cs) =
     (if \<not> startsWith c oldFragment then Some None
      else if \<not> startsWith c fragment then Some (Some oldFragment)
      else scan_candidates oldFragment fragment cs)"

function getSharedFragment :: "string \<Rightarrow> string list \<Rightarrow> js_error + string option" where
  "getSharedFragment fragment candidates =
     (case candidates of
        [] \<Rightarrow> Inl TypeError
      | c0 # _ \<Rightarrow>
          if length fragment \<ge> length c0 then Inr (Some fragment)
          else (case scan_candidates fragment
                       (fragment @ slice c0 (length fragment) (length fragment + 1)) candidates of
                  Some r \<Rightarrow> Inr r
                | None \<Rightarrow>
                    getSharedFragment
                      (fragment @ slice c0 (length fragment) (length fragment + 1)) candidates))"
  by pat_completeness auto
termination
  by (relation "measure (\<lambda>(f, cs). length (hd cs) - length f)") (auto simp: slice_def)

declare getSharedFragment.simps [simp del]

section \<open>LocalEchoController: state\<close>

text \<open>
  The controller attached to a terminal. What it does to the terminal is the list of the
  strings passed to \<^verbatim>\<open>term.write\<close>, in order; what it prints with \<^verbatim>\<open>console.error\<close>
  and the promises it settles are lists too. The fields \<^verbatim>\<open>_input\<close>, \<^verbatim>\<open>_cursor\<close>, ... of
  the source are \<open>u_input\<close>, \<open>u_cursor\<close>, ... here.
\<close>

record read_prompt =
  prompt :: string
  continuationPrompt :: string

datatype char_then =
  NoThen
  \<comment> \<open>a promise of \<^verbatim>\<open>readChar\<close> handed to the caller\<close>
| DisplayAll "string list" nat
  \<comment> \<open>the promise that the TAB key builds for more candidates than
      \<^verbatim>\<open>maxAutocompleteEntries\<close>: print the candidates on the answer y or Y, then resume the
      prompt with the cursor saved\<close>

record char_prompt =
  charPrompt :: string
  andThen :: char_then

datatype settlement =
  ReadResolved string | ReadRejected string | CharResolved string | CharRejected string

record termSize =
  cols :: nat
  rows :: nat

record 'a session =
  term_writes :: "string list"
  console :: "string list"
  settled :: "settlement list"
  history :: HistoryController
  maxAutocompleteEntries :: nat
  isIncompleteInputFn :: "string \<Rightarrow> bool"
  u_autocompleteHandlers :: "'a callback list"
  u_active :: bool
  u_input :: string
  u_cursor :: nat
  u_activePrompt :: "read_prompt option"
  u_activeCharPrompt :: "char_prompt option"
  u_termSize :: termSize

text \<open>
  An operation returns, throws or does not come back: \<open>None\<close> is a loop that never ends,
  \<open>Throw\<close> carries the state at the throw.
\<close>

datatype 's outcome = Return 's | Throw js_error 's

definition and_then :: "'s outcome option \<Rightarrow> ('s \<Rightarrow> 's outcome option) \<Rightarrow> 's outcome option" where
  "and_then r f = (case r of None \<Rightarrow> None | Some (Throw e s) \<Rightarrow> Some (Throw e s) | Some (Return s) \<Rightarrow> f s)"

definition or_default :: "nat option \<Rightarrow> nat \<Rightarrow> nat" where
  \<comment> \<open>\<^verbatim>\<open>options.x || d\<close> for a number\<close>
  "or_default x d = (case x of None \<Rightarrow> d | Some n \<Rightarrow> if n = 0 then d else n)"

definition attach :: "termSize \<Rightarrow> 'a session \<Rightarrow> 'a session" where
  \<comment> \<open>\<^verbatim>\<open>attach\<close> on a terminal of the given size; the listeners it registers are what
      calls \<open>handleTermData\<close> and \<open>handleTermResize\<close>\<close>
  "attach term_size s = s\<lparr>u_termSize := \<lparr>cols = cols term_size, rows = rows term_size\<rparr>\<rparr>"

definition LocalEchoController_new ::
    "termSize \<Rightarrow> nat option \<Rightarrow> nat option \<Rightarrow> (string \<Rightarrow> bool) option \<Rightarrow> 'a session" where
  \<comment> \<open>the constructor on a terminal of the given size, with the options \<^verbatim>\<open>historySize\<close>,
      \<^verbatim>\<open>maxAutocompleteEntries\<close> and \<^verbatim>\<open>isIncompleteInput\<close>\<close>
  "LocalEchoController_new term_size historySize maxEntries incomplete =
     attach term_size
       \<lparr>term_writes = [], console = [], settled = [],
        history = HistoryController_new (or_default historySize 10),
        maxAutocompleteEntries = or_default maxEntries 100,
        isIncompleteInputFn = (case incomplete of None \<Rightarrow> isIncompleteInput | Some f \<Rightarrow> f),
        u_autocompleteHandlers = [],
        u_active = False, u_input = [], u_cursor = 0,
        u_activePrompt = None, u_activeCharPrompt = None,
        u_termSize = \<lparr>cols = 0, rows = 0\<rparr>\<rparr>"

definition addAutocompleteHandler ::
    "(int \<Rightarrow> token list \<Rightarrow> 'a list \<Rightarrow> string + string list) \<Rightarrow> 'a list \<Rightarrow> 'a session \<Rightarrow> 'a session" where
  "addAutocompleteHandler f xs s =
     s\<lparr>u_autocompleteHandlers := u_autocompleteHandlers s @ [\<lparr>fn = f, args = xs\<rparr>]\<rparr>"

definition term_write :: "string \<Rightarrow> 'a session \<Rightarrow> 'a session" where
  "term_write data s = s\<lparr>term_writes := term_writes s @ [data]\<rparr>"

definition write_times :: "nat \<Rightarrow> string \<Rightarrow> 'a session \<Rightarrow> 'a session" where
  \<comment> \<open>\<^verbatim>\<open>for (i = 0; i < n; ++i) this.term.write(data)\<close>\<close>
  "write_times n data s = s\<lparr>term_writes := term_writes s @ replicate n data\<rparr>"

section \<open>LocalEchoController: printing\<close>

fun expand_replacement :: "string \<Rightarrow> string \<Rightarrow> string \<Rightarrow> string \<Rightarrow> string" where
  \<comment> \<open>the replacement string of \<^verbatim>\<open>String.prototype.replace\<close> for a pattern with no group:
      \<^verbatim>\<open>$$\<close> is a dollar, \<^verbatim>\<open>$&\<close> the match, \<^verbatim>\<open>$`\<close> what precedes it, \<^verbatim>\<open>$'\<close> what
      follows it\<close>
  "expand_replacement [] matched pre post = []"
| "expand_replacement (a # b # r) matched pre post =
     (if a = CHR ''$'' \<and> b = CHR ''$'' then CHR ''$'' # expand_replacement r matched pre post
      else if a = CHR ''$'' \<and> b = CHR ''&'' then matched @ expand_replacement r matched pre post
      else if a = CHR ''$'' \<and> b = CHR 0x60 then pre @ expand_replacement r matched pre post
      else if a = CHR ''$'' \<and> b = CHR 0x27 then post @ expand_replacement r matched pre post
      else a # expand_replacement (b # r) matched pre post)"
| "expand_replacement [a] matched pre post = [a]"

fun replace_from :: "string \<Rightarrow> string \<Rightarrow> string \<Rightarrow> string" where
  \<comment> \<open>\<open>pre\<close> is the input already read, which precedes a match\<close>
  "replace_from repl pre [] = []"
| "replace_from repl pre (c # cs) =
     (if c = CHR 0x0A
      then expand_replacement repl [c] pre cs @ replace_from repl (pre @ [c]) cs
      else c # replace_from repl (pre @ [c]) cs)"

definition replace_newline :: "string \<Rightarrow> string \<Rightarrow> string" where
  \<comment> \<open>\<^verbatim>\<open>input.replace(/\n/g, repl)\<close>\<close>
  "replace_newline input repl = replace_from repl [] input"

function replace_newline_runs :: "string \<Rightarrow> string \<Rightarrow> string" where
  \<comment> \<open>\<^verbatim>\<open>input.replace(/[\r\n]+/g, repl)\<close> for the two replacements of the source, a line
      feed and a carriage return\<close>
  "replace_newline_runs repl [] = []"
| "replace_newline_runs repl (c # cs) =
     (if isLineTerminator c then repl @ replace_newline_runs repl (dropWhile isLineTerminator cs)
      else c # replace_newline_runs repl cs)"
  by pat_completeness auto
termination
  by (relation "measure (\<lambda>(r, s). length s)")
     (auto intro: le_imp_less_Suc length_dropWhile_le)

definition print :: "string \<Rightarrow> 'a session \<Rightarrow> 'a session" where
  "print message s =
     (let normInput = replace_newline_runs [CHR 0x0A] message
      in term_write (replace_newline normInput [CHR 0x0D, CHR 0x0A]) s)"

definition println :: "string \<Rightarrow> 'a session \<Rightarrow> 'a session" where
  "println message s = print (message @ [CHR 0x0A]) s"

text \<open>
  The numbers of \<^verbatim>\<open>printWide\<close>. A quotient of two lengths below \<open>2 ^ 53\<close> is rounded by
  \<^verbatim>\<open>Math.floor\<close> and \<^verbatim>\<open>Math.ceil\<close> to the integer quotient; a division by zero is
  \<^verbatim>\<open>Infinity\<close>, or \<^verbatim>\<open>NaN\<close> for zero by zero.
\<close>

datatype jsnum = Num nat | Infinity | NaN

definition floor_div :: "nat \<Rightarrow> nat \<Rightarrow> jsnum" where
  \<comment> \<open>\<^verbatim>\<open>Math.floor(a / b)\<close>\<close>
  "floor_div a b = (if b = 0 then (if a = 0 then NaN else Infinity) else Num (a div b))"

definition ceil_div :: "nat \<Rightarrow> jsnum \<Rightarrow> jsnum" where
  \<comment> \<open>\<^verbatim>\<open>Math.ceil(a / b)\<close>\<close>
  "ceil_div a b =
     (case b of
        NaN \<Rightarrow> NaN
      | Infinity \<Rightarrow> Num 0
      | Num k \<Rightarrow> if k = 0 then (if a = 0 then NaN else Infinity) else Num ((a + k - 1) div k))"

definition less_num :: "nat \<Rightarrow> jsnum \<Rightarrow> bool" where
  \<comment> \<open>\<^verbatim>\<open>i < n\<close> for a counter \<open>i\<close>\<close>
  "less_num i n = (case n of Num k \<Rightarrow> i < k | Infinity \<Rightarrow> True | NaN \<Rightarrow> False)"

definition itemWidth_of :: "string list \<Rightarrow> nat \<Rightarrow> nat" where
  "itemWidth_of items padding = foldl (\<lambda>width item. max width (length item)) 0 items + padding"

partial_function (option) printWide_cols ::
    "string list \<Rightarrow> nat \<Rightarrow> jsnum \<Rightarrow> nat \<Rightarrow> nat \<Rightarrow> string \<Rightarrow> (nat \<times> string) option" where
  \<comment> \<open>the loop over the columns of one row, from column \<open>c\<close>: the index \<open>i\<close> of the next item
      and the row so far\<close>
  "printWide_cols items itemWidth wideCols c i rowStr =
     (if less_num c wideCols
      then (if i < length items
            then printWide_cols items itemWidth wideCols (c + 1) (i + 1)
                   (rowStr @ (items ! i) @ replicate (itemWidth - length (items ! i)) (CHR 0x20))
            else printWide_cols items itemWidth wideCols (c + 1) i rowStr)
      else Some (i, rowStr))"

partial_function (option) printWide_rows ::
    "string list \<Rightarrow> nat \<Rightarrow> jsnum \<Rightarrow> jsnum \<Rightarrow> nat \<Rightarrow> nat \<Rightarrow> 'a session \<Rightarrow> 'a session option" where
  \<comment> \<open>the loop over the rows, from row \<open>r\<close>\<close>
  "printWide_rows items itemWidth wideCols wideRows r i s =
     (if less_num r wideRows
      then (case printWide_cols items itemWidth wideCols 0 i [] of
              None \<Rightarrow> None
            | Some (i', rowStr) \<Rightarrow>
                printWide_rows items itemWidth wideCols wideRows (r + 1) i' (println rowStr s))
      else Some s)"

declare printWide_cols.simps [code] printWide_rows.simps [code]

definition printWide :: "string list \<Rightarrow> nat \<Rightarrow> 'a session \<Rightarrow> 'a session outcome option" where
  \<comment> \<open>for no item the source calls a function \<^verbatim>\<open>println\<close> that is not defined\<close>
  "printWide items padding s =
     (if length items = 0 then Some (Throw ReferenceError s)
      else let itemWidth = itemWidth_of items padding;
               wideCols = floor_div (cols (u_termSize s)) itemWidth;
               wideRows = ceil_div (length items) wideCols
           in map_option Return (printWide_rows items itemWidth wideCols wideRows 0 0 s))"

section \<open>LocalEchoController: painting the input\<close>

definition applyPrompts :: "string \<Rightarrow> 'a session \<Rightarrow> string" where
  "applyPrompts input s =
     (let prompt = (case u_activePrompt s of None \<Rightarrow> [] | Some p \<Rightarrow> prompt p);
          continuationPrompt = (case u_activePrompt s of None \<Rightarrow> [] | Some p \<Rightarrow> continuationPrompt p)
      in prompt @ replace_newline input (CHR 0x0A # continuationPrompt))"

definition applyPromptOffset :: "string \<Rightarrow> nat \<Rightarrow> 'a session \<Rightarrow> nat" where
  "applyPromptOffset input offset s = length (applyPrompts (substr2 input 0 offset) s)"

definition clearInput :: "'a session \<Rightarrow> 'a session" where
  \<comment> \<open>a loop up to a bound that is negative does not run: the subtractions stop at 0\<close>
  "clearInput s =
     (let currentPrompt = applyPrompts (u_input s) s;
          allRows = countLines currentPrompt (cols (u_termSize s));
          promptCursor = applyPromptOffset (u_input s) (u_cursor s) s;
          rc = offsetToColRow currentPrompt promptCursor (cols (u_termSize s));
          moveRows = allRows - row rc - 1
      in write_times (allRows - 1) (CHR 0x1B # ''[F'' @ CHR 0x1B # ''[K'')
           (term_write (CHR 0x0D # CHR 0x1B # ''[K'')
              (write_times moveRows (CHR 0x1B # ''[E'') s)))"

definition setInput :: "string \<Rightarrow> bool \<Rightarrow> 'a session \<Rightarrow> 'a session" where
  "setInput newInput clear s =
     (let s1 = (if clear then clearInput s else s);
          newPrompt = applyPrompts newInput s1;
          s2 = print newPrompt s1;
          s3 = (if u_cursor s2 > length newInput then s2\<lparr>u_cursor := length newInput\<rparr> else s2);
          newCursor = applyPromptOffset newInput (u_cursor s3) s3;
          newLines = countLines newPrompt (cols (u_termSize s3));
          rc = offsetToColRow newPrompt newCursor (cols (u_termSize s3));
          moveUpRows = newLines - row rc - 1;
          s4 = write_times (col rc) (CHR 0x1B # ''[C'')
                 (write_times moveUpRows (CHR 0x1B # ''[F'') (term_write [CHR 0x0D] s3))
      in s4\<lparr>u_input := newInput\<rparr>)"

definition setCursor :: "int \<Rightarrow> 'a session \<Rightarrow> 'a session" where
  "setCursor newCursor0 s =
     (let newCursor1 = (if newCursor0 < 0 then 0 else newCursor0);
          newCursor = (if newCursor1 > int (length (u_input s)) then length (u_input s)
                       else nat newCursor1);
          inputWithPrompt = applyPrompts (u_input s) s;
          prevPromptOffset = applyPromptOffset (u_input s) (u_cursor s) s;
          prev = offsetToColRow inputWithPrompt prevPromptOffset (cols (u_termSize s));
          newPromptOffset = applyPromptOffset (u_input s) newCursor s;
          new = offsetToColRow inputWithPrompt newPromptOffset (cols (u_termSize s));
          s1 = (if row new > row prev then write_times (row new - row prev) (CHR 0x1B # ''[B'') s
                else write_times (row prev - row new) (CHR 0x1B # ''[A'') s);
          s2 = (if col new > col prev then write_times (col new - col prev) (CHR 0x1B # ''[C'') s1
                else write_times (col prev - col new) (CHR 0x1B # ''[D'') s1)
      in s2\<lparr>u_cursor := newCursor\<rparr>)"

definition handleCursorMove :: "int \<Rightarrow> 'a session \<Rightarrow> 'a session" where
  "handleCursorMove dir s =
     (if dir > 0
      then (let num = min dir (int (length (u_input s)) - int (u_cursor s))
            in setCursor (int (u_cursor s) + num) s)
      else if dir < 0
      then (let num = max dir (- int (u_cursor s))
            in setCursor (int (u_cursor s) + num) s)
      else s)"

definition handleCursorErase :: "bool \<Rightarrow> 'a session \<Rightarrow> 'a session" where
  "handleCursorErase backspace s =
     (if backspace
      then (if u_cursor s \<le> 0 then s
            else let newInput = substr2 (u_input s) 0 (u_cursor s - 1) @ substr (u_input s) (u_cursor s);
                     s1 = clearInput s;
                     s2 = s1\<lparr>u_cursor := u_cursor s1 - 1\<rparr>
                 in setInput newInput False s2)
      else (let newInput = substr2 (u_input s) 0 (u_cursor s) @ substr (u_input s) (u_cursor s + 1)
            in setInput newInput True s))"

definition handleCursorInsert :: "string \<Rightarrow> 'a session \<Rightarrow> 'a session" where
  "handleCursorInsert data s =
     (let newInput = substr2 (u_input s) 0 (u_cursor s) @ data @ substr (u_input s) (u_cursor s)
      in setInput newInput True (s\<lparr>u_cursor := u_cursor s + length data\<rparr>))"

section \<open>LocalEchoController: reads\<close>

definition read :: "string \<Rightarrow> string \<Rightarrow> 'a session \<Rightarrow> 'a session" where
  "read p c s =
     (term_write p s)
       \<lparr>u_activePrompt := Some \<lparr>prompt = p, continuationPrompt = c\<rparr>,
        u_input := [], u_cursor := 0, u_active := True\<rparr>"

definition readChar_then :: "string \<Rightarrow> char_then \<Rightarrow> 'a session \<Rightarrow> 'a session" where
  \<comment> \<open>\<^verbatim>\<open>readChar(p)\<close>, and what is chained to the promise it returns\<close>
  "readChar_then p k s =
     (term_write p s)\<lparr>u_activeCharPrompt := Some \<lparr>charPrompt = p, andThen = k\<rparr>\<rparr>"

definition readChar :: "string \<Rightarrow> 'a session \<Rightarrow> 'a session" where
  "readChar p s = readChar_then p NoThen s"

definition abortRead :: "string \<Rightarrow> 'a session \<Rightarrow> 'a session" where
  "abortRead reason s =
     (let s1 = (if u_activePrompt s \<noteq> None \<or> u_activeCharPrompt s \<noteq> None
                then term_write [CHR 0x0D, CHR 0x0A] s else s);
          s2 = (if u_activePrompt s1 \<noteq> None
                then s1\<lparr>settled := settled s1 @ [ReadRejected reason], u_activePrompt := None\<rparr>
                else s1);
          s3 = (if u_activeCharPrompt s2 \<noteq> None
                then s2\<lparr>settled := settled s2 @ [CharRejected reason], u_activeCharPrompt := None\<rparr>
                else s2)
      in s3\<lparr>u_active := False\<rparr>)"

definition handleReadComplete :: "'a session \<Rightarrow> 'a session" where
  "handleReadComplete s =
     (let s1 = s\<lparr>history := push (u_input s) (history s)\<rparr>;
          s2 = (if u_activePrompt s1 \<noteq> None
                then s1\<lparr>settled := settled s1 @ [ReadResolved (u_input s1)], u_activePrompt := None\<rparr>
                else s1)
      in (term_write [CHR 0x0D, CHR 0x0A] s2)\<lparr>u_active := False\<rparr>)"

definition handleTermResize :: "termSize \<Rightarrow> 'a session \<Rightarrow> 'a session" where
  "handleTermResize data s =
     (let s1 = clearInput s;
          s2 = s1\<lparr>u_termSize := \<lparr>cols = cols data, rows = rows data\<rparr>\<rparr>
      in setInput (u_input s2) False s2)"

section \<open>LocalEchoController: the prompt restarted\<close>

definition resume :: "nat \<Rightarrow> 'a session \<Rightarrow> 'a session" where
  \<comment> \<open>the function \<^verbatim>\<open>resume\<close> of \<^verbatim>\<open>printAndRestartPrompt\<close>, for the cursor it saved\<close>
  "resume cursor0 s = (let s1 = s\<lparr>u_cursor := cursor0\<rparr> in setInput (u_input s1) True s1)"

definition digit_char :: "nat \<Rightarrow> char" where
  "digit_char d = char_of (48 + d)"

function show_nat :: "nat \<Rightarrow> string" where
  \<comment> \<open>a length in a template literal\<close>
  "show_nat n = (if n < 10 then [digit_char n] else show_nat (n div 10) @ [digit_char (n mod 10)])"
  by pat_completeness auto
termination
  by (relation "measure id") auto

datatype restart_callback =
  PrintCandidates "string list"
  \<comment> \<open>\<^verbatim>\<open>() => { this.printWide(candidates); }\<close>, which returns nothing\<close>
| AskThenPrint "string list"
  \<comment> \<open>\<^verbatim>\<open>() => this.readChar(...).then(yn => ...)\<close>, which returns a promise\<close>

definition printAndRestartPrompt :: "restart_callback \<Rightarrow> 'a session \<Rightarrow> 'a session outcome option" where
  "printAndRestartPrompt callback s =
     (let cursor0 = u_cursor s;
          s1 = term_write [CHR 0x0D, CHR 0x0A] (setCursor (int (length (u_input s))) s)
      in case callback of
           PrintCandidates candidates \<Rightarrow>
             and_then (printWide candidates 2 s1) (\<lambda>s2. Some (Return (resume cursor0 s2)))
         | AskThenPrint candidates \<Rightarrow>
             Some (Return (readChar_then
               (''Display all '' @ show_nat (length candidates) @ '' possibilities? (y or n)'')
               (DisplayAll candidates cursor0) s1)))"

definition run_then :: "char_then \<Rightarrow> string \<Rightarrow> 'a session \<Rightarrow> 'a session outcome option" where
  \<comment> \<open>what is chained to a promise of \<^verbatim>\<open>readChar\<close>, run when it is resolved with \<open>yn\<close>; when
      the printing throws the chained promise is rejected and the prompt is not resumed\<close>
  "run_then k yn s =
     (case k of
        NoThen \<Rightarrow> Some (Return s)
      | DisplayAll candidates cursor0 \<Rightarrow>
          (case (if yn = ''y'' \<or> yn = ''Y'' then printWide candidates 2 s else Some (Return s)) of
             None \<Rightarrow> None
           | Some (Throw e s') \<Rightarrow> Some (Return s')
           | Some (Return s') \<Rightarrow> Some (Return (resume cursor0 s'))))"

section \<open>LocalEchoController: terminal input\<close>

definition token_length :: "token \<Rightarrow> nat" where
  \<comment> \<open>the start that \<^verbatim>\<open>substr(lastToken.length)\<close> reads: an object has no length, and
      \<^verbatim>\<open>substr(undefined)\<close> starts at 0\<close>
  "token_length t = (case t of TString x \<Rightarrow> length x | TObject _ \<Rightarrow> 0)"

definition handleTab ::
    "(string \<Rightarrow> js_error + token list) \<Rightarrow> 'a session \<Rightarrow> 'a session outcome option" where
  \<comment> \<open>the case TAB of \<^verbatim>\<open>handleData\<close>; what the tokenizer throws leaves the handler, with
      the state as it is then\<close>
  "handleTab parse s =
     (if length (u_autocompleteHandlers s) > 0
      then (let inputFragment = substr2 (u_input s) 0 (u_cursor s);
                hasTailingSpace = hasTailingWhitespace inputFragment
            in case collectAutocompleteCandidates parse (u_autocompleteHandlers s) inputFragment of
                 Inl e \<Rightarrow> Some (Throw e s)
               | Inr collected \<Rightarrow>
                  (let s1 = s\<lparr>console := console s @ snd collected\<rparr>;
                       candidates = sort (fst collected)
                   in if length candidates = 0
                      then (if \<not> hasTailingSpace then Some (Return (handleCursorInsert '' '' s1))
                            else Some (Return s1))
                      else if length candidates = 1
                      then (case getLastToken parse inputFragment of
                              Inl e \<Rightarrow> Some (Throw e s1)
                            | Inr lastToken \<Rightarrow>
                                Some (Return (handleCursorInsert
                                  (substr (candidates ! 0) (token_length lastToken) @ '' '') s1)))
                      else if length candidates \<le> maxAutocompleteEntries s1
                      then (case getSharedFragment inputFragment candidates of
                              Inl e \<Rightarrow> Some (Throw e s1)
                            | Inr sameFragment \<Rightarrow>
                                (case sameFragment of
                                   None \<Rightarrow> printAndRestartPrompt (PrintCandidates candidates) s1
                                 | Some f \<Rightarrow>
                                     if f = [] then printAndRestartPrompt (PrintCandidates candidates) s1
                                     else (case getLastToken parse inputFragment of
                                             Inl e \<Rightarrow> Some (Throw e s1)
                                           | Inr lastToken \<Rightarrow>
                                               printAndRestartPrompt (PrintCandidates candidates)
                                                 (handleCursorInsert
                                                    (substr f (token_length lastToken)) s1))))
                      else printAndRestartPrompt (AskThenPrint candidates) s1))
      else Some (Return (handleCursorInsert ''    '' s)))"

definition handleEscape :: "string \<Rightarrow> 'a session \<Rightarrow> 'a session" where
  \<comment> \<open>the \<^verbatim>\<open>switch (data.substr(1))\<close> of \<^verbatim>\<open>handleData\<close>\<close>
  "handleEscape rest s =
     (if rest = ''[A''
      then (let r = getPrevious (history s); s1 = s\<lparr>history := snd r\<rparr>
            in case fst r of
                 None \<Rightarrow> s1
               | Some v \<Rightarrow> if v = [] then s1 else setCursor (int (length v)) (setInput v True s1))
      else if rest = ''[B''
      then (let r = getNext (history s); s1 = s\<lparr>history := snd r\<rparr>;
                v = (case fst r of None \<Rightarrow> [] | Some x \<Rightarrow> x)
            in setCursor (int (length v)) (setInput v True s1))
      else if rest = ''[D'' then handleCursorMove (- 1) s
      else if rest = ''[C'' then handleCursorMove 1 s
      else if rest = ''[3~'' then handleCursorErase False s
      else if rest = ''[F'' then setCursor (int (length (u_input s))) s
      else if rest = ''[H'' then setCursor 0 s
      else if rest = ''b'' then setCursor (int (closestLeftBoundary (u_input s) (u_cursor s))) s
      else if rest = ''f'' then setCursor (int (closestRightBoundary (u_input s) (u_cursor s))) s
      else if rest = [CHR 0x7F]
      then (let ofs = closestLeftBoundary (u_input s) (u_cursor s);
                s1 = setInput (substr2 (u_input s) 0 ofs @ substr (u_input s) (u_cursor s)) True s
            in setCursor (int ofs) s1)
      else s)"

definition handleSpecial :: "(string \<Rightarrow> js_error + token list) \<Rightarrow> string \<Rightarrow> 'a session \<Rightarrow> 'a session outcome option" where
  \<comment> \<open>the \<^verbatim>\<open>switch (data)\<close> of \<^verbatim>\<open>handleData\<close>\<close>
  "handleSpecial parse data s =
     (if data = [CHR 0x0D]
      then (if isIncompleteInputFn s (u_input s) then Some (Return (handleCursorInsert [CHR 0x0A] s))
            else Some (Return (handleReadComplete s)))
      else if data = [CHR 0x7F] then Some (Return (handleCursorErase True s))
      else if data = [CHR 0x09] then handleTab parse s
      else if data = [CHR 0x03]
      then (let s1 = setCursor (int (length (u_input s))) s;
                s2 = term_write (''^C'' @ [CHR 0x0D, CHR 0x0A]
                       @ (case u_activePrompt s1 of None \<Rightarrow> [] | Some p \<Rightarrow> prompt p)) s1;
                s3 = s2\<lparr>u_input := [], u_cursor := 0\<rparr>
            in Some (Return (s3\<lparr>history := rewind (history s3)\<rparr>)))
      else Some (Return s))"

definition handleData :: "(string \<Rightarrow> js_error + token list) \<Rightarrow> string \<Rightarrow> 'a session \<Rightarrow> 'a session outcome option" where
  \<comment> \<open>\<^verbatim>\<open>charCodeAt(0)\<close> of the empty string is \<^verbatim>\<open>NaN\<close>, which fails every comparison\<close>
  "handleData parse data s =
     (if \<not> u_active s then Some (Return s)
      else case data of
             [] \<Rightarrow> Some (Return (handleCursorInsert data s))
           | c # rest \<Rightarrow>
               (let ord = (of_char c :: nat)
                in if ord = 0x1b then Some (Return (handleEscape rest s))
                   else if ord < 32 \<or> ord = 0x7f then handleSpecial parse data s
                   else Some (Return (handleCursorInsert data s))))"

fun handleData_each :: "(string \<Rightarrow> js_error + token list) \<Rightarrow> string \<Rightarrow> 'a session \<Rightarrow> 'a session outcome option" where
  \<comment> \<open>\<^verbatim>\<open>Array.from(normData).forEach(c => this.handleData(c))\<close>\<close>
  "handleData_each parse [] s = Some (Return s)"
| "handleData_each parse (c # cs) s = and_then (handleData parse [c] s) (handleData_each parse cs)"

definition handleTermData :: "(string \<Rightarrow> js_error + token list) \<Rightarrow> string \<Rightarrow> 'a session \<Rightarrow> 'a session outcome option" where
  \<comment> \<open>a pending promise of \<^verbatim>\<open>readChar\<close> is resolved with the data; what is chained to it
      runs once the handler has returned\<close>
  "handleTermData parse data s =
     (if \<not> u_active s then Some (Return s)
      else case u_activeCharPrompt s of
             Some cp \<Rightarrow>
               (let s1 = s\<lparr>settled := settled s @ [CharResolved data], u_activeCharPrompt := None\<rparr>;
                    s2 = term_write [CHR 0x0D, CHR 0x0A] s1
                in run_then (andThen cp) data s2)
           | None \<Rightarrow>
               if length data > 3 \<and> (of_char (hd data) :: nat) \<noteq> 0x1b
               then (let normData = replace_newline_runs [CHR 0x0D] data
                     in handleData_each parse normData s)
               else handleData parse data s)"

section \<open>LocalEchoController: the states reached\<close>

fun state_of :: "'s outcome \<Rightarrow> 's" where
  "state_of (Return s) = s"
| "state_of (Throw e s) = s"

definition returned :: "'s outcome option \<Rightarrow> 's option" where
  "returned r = (case r of Some (Return s) \<Rightarrow> Some s | Some (Throw e s) \<Rightarrow> None | None \<Rightarrow> None)"

text \<open>
  The states of a controller: the state the constructor leaves, and every state that a
  method of the class leaves when it returns or throws, called on a state reached before.
\<close>

inductive reachable :: "(string \<Rightarrow> js_error + token list) \<Rightarrow> 'a session \<Rightarrow> bool"
  for parse :: "string \<Rightarrow> js_error + token list" where
  r_new: "reachable parse (LocalEchoController_new term_size historySize maxEntries incomplete)"
| r_attach: "reachable parse s \<Longrightarrow> reachable parse (attach term_size s)"
| r_addAutocompleteHandler: "reachable parse s \<Longrightarrow> reachable parse (addAutocompleteHandler f xs s)"
| r_read: "reachable parse s \<Longrightarrow> reachable parse (read p c s)"
| r_readChar: "reachable parse s \<Longrightarrow> reachable parse (readChar p s)"
| r_abortRead: "reachable parse s \<Longrightarrow> reachable parse (abortRead reason s)"
| r_println: "reachable parse s \<Longrightarrow> reachable parse (println message s)"
| r_print: "reachable parse s \<Longrightarrow> reachable parse (print message s)"
| r_printWide:
    "reachable parse s \<Longrightarrow> printWide items padding s = Some r \<Longrightarrow> reachable parse (state_of r)"
| r_clearInput: "reachable parse s \<Longrightarrow> reachable parse (clearInput s)"
| r_setInput: "reachable parse s \<Longrightarrow> reachable parse (setInput newInput clear s)"
| r_printAndRestartPrompt:
    "reachable parse s \<Longrightarrow> printAndRestartPrompt callback s = Some r \<Longrightarrow>
     reachable parse (state_of r)"
| r_setCursor: "reachable parse s \<Longrightarrow> reachable parse (setCursor newCursor s)"
| r_handleCursorMove: "reachable parse s \<Longrightarrow> reachable parse (handleCursorMove dir s)"
| r_handleCursorErase: "reachable parse s \<Longrightarrow> reachable parse (handleCursorErase backspace s)"
| r_handleCursorInsert: "reachable parse s \<Longrightarrow> reachable parse (handleCursorInsert data s)"
| r_handleReadComplete: "reachable parse s \<Longrightarrow> reachable parse (handleReadComplete s)"
| r_handleTermResize: "reachable parse s \<Longrightarrow> reachable parse (handleTermResize data' s)"
| r_handleTermData:
    "reachable parse s \<Longrightarrow> handleTermData parse data s = Some r \<Longrightarrow> reachable parse (state_of r)"
| r_handleData:
    "reachable parse s \<Longrightarrow> handleData parse data s = Some r \<Longrightarrow> reachable parse (state_of r)"

definition cursor_in_range :: "'a session \<Rightarrow> bool" where
  "cursor_in_range s \<longleftrightarrow> u_cursor s \<le> length (u_input s)"

section \<open>A session\<close>

definition no_tokens :: "string \<Rightarrow> js_error + token list" where
  \<comment> \<open>a tokenizer for the sessions below, which complete nothing\<close>
  "no_tokens input = Inr []"

definition whole_input :: "string \<Rightarrow> js_error + token list" where
  \<comment> \<open>a tokenizer that returns its input as one token, and throws on \<^verbatim>\<open>echo ${\<close> as
      shell-quote does\<close>
  "whole_input input =
     (if input = ''echo ${'' then Inl (Error ''Bad substitution: '') else Inr [TString input])"

definition echo_provider :: "unit callback" where
  \<comment> \<open>a provider that never throws\<close>
  "echo_provider = \<lparr>fn = \<lambda>index tokens xs. Inr [''echo'', ''exit''], args = []\<rparr>"

definition failing_provider :: "unit callback" where
  \<comment> \<open>a provider that throws\<close>
  "failing_provider = \<lparr>fn = \<lambda>index tokens xs. Inl ''boom'', args = []\<rparr>"

definition cat_provider :: "unit callback" where
  "cat_provider = \<lparr>fn = \<lambda>index tokens xs. Inr [''cat'', ''exec''], args = [()]\<rparr>"

definition fresh :: "nat \<Rightarrow> unit session" where
  \<comment> \<open>a controller with the default options on a terminal of the given width and 24 rows\<close>
  "fresh width = LocalEchoController_new \<lparr>cols = width, rows = 24\<rparr> None None None"

definition typed_hi :: "unit session outcome option" where
  \<comment> \<open>a read with the prompt \<^verbatim>\<open>$ \<close>, then the keys h and i\<close>
  "typed_hi =
     and_then (handleTermData no_tokens ''h'' (read ''$ '' ''> '' (fresh 80)))
       (handleTermData no_tokens ''i'')"

section \<open>The specification's words, for comparison\<close>

fun spec_unescaped_count :: "char \<Rightarrow> string \<Rightarrow> nat" where
  \<comment> \<open>the specification's count of the unescaped occurrences of a quote character: a
      character that follows an escaping backslash is not counted\<close>
  "spec_unescaped_count q [] = 0"
| "spec_unescaped_count q (a # b # r) =
     (if a = CHR 0x5C then spec_unescaped_count q r
      else (if a = q then 1 else 0) + spec_unescaped_count q (b # r))"
| "spec_unescaped_count q [a] = (if a = q then 1 else 0)"

definition spec_contribution :: "int \<Rightarrow> token list \<Rightarrow> 'a callback \<Rightarrow> string list" where
  \<comment> \<open>the specification's candidates of one provider: none when it raises\<close>
  "spec_contribution index tokens cb =
     (case fn cb index tokens (args cb) of Inr r \<Rightarrow> r | Inl e \<Rightarrow> [])"

definition spec_reported :: "int \<Rightarrow> token list \<Rightarrow> 'a callback \<Rightarrow> string list" where
  \<comment> \<open>the specification's report of one provider to the diagnostic channel: what it raised\<close>
  "spec_reported index tokens cb =
     (case fn cb index tokens (args cb) of Inr r \<Rightarrow> [] | Inl e \<Rightarrow> [e])"

section \<open>History: eviction\<close>

text \<open>
  C1. The claim: pushing capacity + 1 distinct non-empty entries keeps the capacity most
  recent ones, the oldest evicted first. The code evicts with \<^verbatim>\<open>entries.pop(0)\<close>, which
  removes the entry just pushed: with capacity 2 and the pushes a, b, c the ring holds
  a, b and not b, c.
\<close>

theorem push_evicts_newest:
  "entries (push ''c'' (push ''b'' (push ''a'' (HistoryController_new 2)))) = [''a'', ''b'']"
  by (simp add: push_def HistoryController_new_def pop_def trim_def isWhiteSpace_def)

text \<open>In general a ring that is full never changes again: what is pushed is dropped.\<close>

lemma push_on_full_ring: "length (entries h) = size h \<Longrightarrow> entries (push entry h) = entries h"
  by (simp add: push_def pop_def Let_def)

section \<open>Text geometry: rows and lines\<close>

lemma row_advance: "row rc \<le> row (advance input m rc i)"
  by (simp add: advance_def Let_def)

lemma row_foldl_advance: "row rc \<le> row (foldl (advance input m) rc is)"
proof (induction "is" arbitrary: rc)
  case Nil
  show ?case by simp
next
  case (Cons i "is")
  have "row rc \<le> row (advance input m rc i)" by (rule row_advance)
  also have "\<dots> \<le> row (foldl (advance input m) (advance input m rc i) is)" by (rule Cons.IH)
  finally show ?case by simp
qed

lemma offsetToColRow_split:
  "o1 \<le> o2 \<Longrightarrow> offsetToColRow input o2 m =
     foldl (advance input m) (offsetToColRow input o1 m) [o1..<o2]"
proof -
  assume le: "o1 \<le> o2"
  then have "[0..<o2] = [0..<o1] @ [o1..<o2]"
    by (metis le_add_diff_inverse upt_add_eq_append zero_le)
  then show ?thesis by (simp add: offsetToColRow_def)
qed

lemma offsetToColRow_row_mono:
  "o1 \<le> o2 \<Longrightarrow> row (offsetToColRow input o1 m) \<le> row (offsetToColRow input o2 m)"
  by (simp add: offsetToColRow_split [of o1 o2] row_foldl_advance)

lemma advance_prefix: "i < length text \<Longrightarrow> advance (text @ ext) m rc i = advance text m rc i"
  by (simp add: advance_def charAt_def nth_append)

lemma foldl_advance_prefix:
  "\<forall>i \<in> set is. i < length text \<Longrightarrow>
     foldl (advance (text @ ext) m) rc is = foldl (advance text m) rc is"
  by (induction "is" arbitrary: rc) (simp_all add: advance_prefix)

lemma offsetToColRow_prefix:
  "n \<le> length text \<Longrightarrow> offsetToColRow (text @ ext) n m = offsetToColRow text n m"
  by (simp add: offsetToColRow_def foldl_advance_prefix)

lemma countLines_append: "countLines text m \<le> countLines (text @ ext) m"
proof -
  have "row (offsetToColRow text (length text) m) = row (offsetToColRow (text @ ext) (length text) m)"
    by (simp add: offsetToColRow_prefix)
  also have "\<dots> \<le> row (offsetToColRow (text @ ext) (length (text @ ext)) m)"
    by (rule offsetToColRow_row_mono) simp
  finally show ?thesis by (simp add: countLines_def)
qed

text \<open>
  C8. For every text and \<open>maxCols \<ge> 1\<close>, \<open>countLines\<close> is at least 1, the row of
  \<open>offsetToColRow\<close> does not decrease when the offset grows, and \<open>countLines\<close> does not
  decrease when the text is extended.
\<close>

theorem countLines_offsetToColRow_monotone:
  "1 \<le> maxCols \<Longrightarrow>
     1 \<le> countLines text maxCols \<and>
     (\<forall>o1 o2. o1 < o2 \<longrightarrow>
        row (offsetToColRow text o1 maxCols) \<le> row (offsetToColRow text o2 maxCols)) \<and>
     (\<forall>ext. countLines text maxCols \<le> countLines (text @ ext) maxCols)"
proof (intro conjI allI impI)
  show "1 \<le> countLines text maxCols" by (simp add: countLines_def)
next
  fix o1 o2 :: nat
  assume "o1 < o2"
  then show "row (offsetToColRow text o1 maxCols) \<le> row (offsetToColRow text o2 maxCols)"
    by (simp add: offsetToColRow_row_mono)
next
  fix ext
  show "countLines text maxCols \<le> countLines (text @ ext) maxCols" by (rule countLines_append)
qed

theorem countLines_offsetToColRow_monotone_witness:
  "(1::nat) \<le> 3 \<and> 1 \<le> countLines ''abcdefg'' 3 \<and>
   row (offsetToColRow ''abcdefg'' 2 3) \<le> row (offsetToColRow ''abcdefg'' 5 3) \<and>
   countLines ''abcdefg'' 3 \<le> countLines (''abcdefg'' @ ''hij'') 3"
  using countLines_offsetToColRow_monotone [of 3 "''abcdefg''"] by simp

section \<open>Text geometry: word boundaries\<close>

lemma wordBoundaries_from_lower:
  "b \<in> set (wordBoundaries_from l i s) \<Longrightarrow> i \<le> b \<and> (\<not> l \<longrightarrow> i < b)"
proof (induction l i s arbitrary: b rule: wordBoundaries_from.induct)
  case (1 leftSide i)
  then show ?case by simp
next
  case (2 leftSide i c cs)
  show ?case
  proof (cases "isWordChar c")
    case True
    let ?m = "takeWhile isWordChar (c # cs)"
    have len: "0 < length ?m" using True by simp
    from "2.prems" True
    consider "b = (if leftSide then i else i + length ?m)"
      | "b \<in> set (wordBoundaries_from leftSide (i + length ?m) (dropWhile isWordChar cs))"
      by (auto simp: Let_def)
    then show ?thesis
    proof cases
      case 1
      then show ?thesis using len by auto
    next
      case 2
      from "2.IH"(1) [OF True refl 2] show ?thesis using len by auto
    qed
  next
    case False
    with "2.prems" have "b \<in> set (wordBoundaries_from leftSide (i + 1) cs)" by simp
    from "2.IH"(2) [OF False this] show ?thesis by auto
  qed
qed

lemma boundary_after_match:
  "0 < (n::nat) \<Longrightarrow> i + n \<le> b \<Longrightarrow> \<not> l \<longrightarrow> i + n < b \<Longrightarrow> (if l then i else i + n) < b"
  by auto

lemma wordBoundaries_from_sorted: "sorted_wrt (<) (wordBoundaries_from l i s)"
proof (induction l i s rule: wordBoundaries_from.induct)
  case (1 leftSide i)
  show ?case by simp
next
  case (2 leftSide i c cs)
  show ?case
  proof (cases "isWordChar c")
    case True
    let ?m = "takeWhile isWordChar (c # cs)"
    let ?rest = "wordBoundaries_from leftSide (i + length ?m) (dropWhile isWordChar cs)"
    have len: "0 < length ?m" using True by simp
    have srt: "sorted_wrt (<) ?rest" by (rule "2.IH"(1) [OF True refl])
    have "\<forall>b \<in> set ?rest. (if leftSide then i else i + length ?m) < b"
    proof
      fix b
      assume "b \<in> set ?rest"
      from wordBoundaries_from_lower [OF this]
      have "i + length ?m \<le> b" and "\<not> leftSide \<longrightarrow> i + length ?m < b" by blast+
      with len show "(if leftSide then i else i + length ?m) < b" by (rule boundary_after_match)
    qed
    with srt True show ?thesis by (simp add: Let_def del: takeWhile.simps) 
  next
    case False
    with "2.IH"(2) show ?thesis by simp
  qed
qed

lemma find_rev_sorted:
  fixes xs :: "nat list"
  shows "sorted_wrt (<) xs \<Longrightarrow>
    find (\<lambda>x. x < off) (rev xs) =
      (if \<exists>x \<in> set xs. x < off then Some (Max {x \<in> set xs. x < off}) else None)"
proof (induction xs rule: rev_induct)
  case Nil
  show ?case by simp
next
  case (snoc x xs)
  from snoc.prems have srt: "sorted_wrt (<) xs" and below: "\<forall>y \<in> set xs. y < x"
    by (auto simp: sorted_wrt_append)
  show ?case
  proof (cases "x < off")
    case True
    have "Max {y \<in> set (xs @ [x]). y < off} = x"
      by (rule Max_eqI) (use True below in \<open>auto intro: less_imp_le\<close>)
    with True show ?thesis by auto
  next
    case False
    then have "{y \<in> set (xs @ [x]). y < off} = {y \<in> set xs. y < off}" by auto
    with False snoc.IH [OF srt] show ?thesis by auto
  qed
qed

lemma find_sorted:
  fixes xs :: "nat list"
  shows "sorted_wrt (<) xs \<Longrightarrow>
    find (\<lambda>x. off < x) xs =
      (if \<exists>x \<in> set xs. off < x then Some (Min {x \<in> set xs. off < x}) else None)"
proof (induction xs)
  case Nil
  show ?case by simp
next
  case (Cons x xs)
  from Cons.prems have srt: "sorted_wrt (<) xs" and above: "\<forall>y \<in> set xs. x < y"
    by auto
  show ?case
  proof (cases "off < x")
    case True
    have "Min {y \<in> set (x # xs). off < y} = x"
      by (rule Min_eqI) (use True above in \<open>auto intro: less_imp_le\<close>)
    with True show ?thesis by auto
  next
    case False
    then have "{y \<in> set (x # xs). off < y} = {y \<in> set xs. off < y}" by auto
    with False Cons.IH [OF srt] show ?thesis by auto
  qed
qed

text \<open>
  C4, as amended. \<open>closestLeftBoundary\<close> returns the greatest start of a word strictly below
  the offset when there is one and 0 otherwise; \<open>closestRightBoundary\<close> returns the least
  end of a word strictly above the offset when there is one and the length of the text
  otherwise. The claim as written (the offset unchanged when there is no boundary on that
  side) fails: in the text " a" at offset 1 no word starts below 1 and the result is 0; in
  the text "a " at offset 1 no word ends above 1 and the result is 2.
\<close>

theorem closest_boundaries:
  "closestLeftBoundary text offset =
     (if \<exists>b \<in> set (wordBoundaries text True). b < offset
      then Max {b \<in> set (wordBoundaries text True). b < offset} else 0) \<and>
   closestRightBoundary text offset =
     (if \<exists>b \<in> set (wordBoundaries text False). offset < b
      then Min {b \<in> set (wordBoundaries text False). offset < b} else length text)"
  by (simp add: closestLeftBoundary_def closestRightBoundary_def wordBoundaries_def
      find_rev_sorted find_sorted wordBoundaries_from_sorted)

theorem closest_boundaries_counterexample:
  "wordBoundaries '' a'' True = [1] \<and> closestLeftBoundary '' a'' 1 = 0 \<and>
   wordBoundaries ''a '' False = [1] \<and> closestRightBoundary ''a '' 1 = 2"
  by (simp add: closestLeftBoundary_def closestRightBoundary_def wordBoundaries_def isWordChar_def)

theorem closest_boundaries_witness:
  "closestLeftBoundary ''ab cd'' 4 = 3 \<and> closestLeftBoundary '' a'' 1 = 0 \<and>
   closestRightBoundary ''ab cd'' 3 = 5 \<and> closestRightBoundary ''a '' 1 = 2"
proof -
  have wl: "wordBoundaries ''ab cd'' True = [0, 3]" and wl': "wordBoundaries '' a'' True = [1]"
    and wr: "wordBoundaries ''ab cd'' False = [2, 5]" and wr': "wordBoundaries ''a '' False = [1]"
    by (simp_all add: wordBoundaries_def isWordChar_def)
  have m: "Max {b \<in> set [0, 3 :: nat]. b < 4} = 3"
    by (rule Max_eqI) auto
  have n: "Min {b \<in> set [2, 5 :: nat]. 3 < b} = 5"
    by (rule Min_eqI) auto
  show ?thesis
    using closest_boundaries [of "''ab cd''" 4] closest_boundaries [of "'' a''" 1]
      closest_boundaries [of "''ab cd''" 3] closest_boundaries [of "''a ''" 1] m n
    by (simp add: wl wl' wr wr')
qed

section \<open>Completion: the shared fragment\<close>

lemma getSharedFragment_stop:
  "cs \<noteq> [] \<Longrightarrow> length (hd cs) \<le> length f \<Longrightarrow> getSharedFragment f cs = Inr (Some f)"
  by (cases cs) (simp_all add: getSharedFragment.simps [of f])

lemma slice_next: "n < length c \<Longrightarrow> slice c n (n + 1) = [c ! n]"
  by (simp add: slice_def take_Suc_conv_app_nth [of 0] hd_drop_conv_nth take_Suc)

lemma getSharedFragment_step:
  assumes "length f < length c0"
  shows "getSharedFragment f (c0 # cs) =
     (case scan_candidates f (f @ [c0 ! length f]) (c0 # cs) of
        Some r \<Rightarrow> Inr r
      | None \<Rightarrow> getSharedFragment (f @ [c0 ! length f]) (c0 # cs))"
proof -
  note sl = slice_next [OF assms]
  have "getSharedFragment f (c0 # cs) =
     (case scan_candidates f (f @ slice c0 (length f) (length f + 1)) (c0 # cs) of
        Some r \<Rightarrow> Inr r
      | None \<Rightarrow> getSharedFragment (f @ slice c0 (length f) (length f + 1)) (c0 # cs))"
    using assms by (subst getSharedFragment.simps) (simp del: scan_candidates.simps)
  then show ?thesis unfolding sl .
qed

lemma getSharedFragment_induct [case_names Empty Stop Step]:
  assumes empty: "\<And>f. P f []"
    and stop: "\<And>f c0 rest. length c0 \<le> length f \<Longrightarrow> P f (c0 # rest)"
    and step: "\<And>f c0 rest. length f < length c0 \<Longrightarrow>
        (scan_candidates f (f @ [c0 ! length f]) (c0 # rest) = None \<Longrightarrow>
           P (f @ [c0 ! length f]) (c0 # rest)) \<Longrightarrow>
        P f (c0 # rest)"
  shows "P f cs"
proof (induction f cs rule: getSharedFragment.induct)
  case (1 f cs)
  show ?case
  proof (cases cs)
    case Nil
    then show ?thesis by (simp add: empty)
  next
    case (Cons c0 rest)
    show ?thesis
    proof (cases "length c0 \<le> length f")
      case True
      with Cons show ?thesis by (simp add: stop)
    next
      case False
      then have lt: "length f < length c0" by simp
      note IH = "1.IH" [OF Cons False, unfolded slice_next [OF lt]]
      have "P f (c0 # rest)"
      proof (rule step [OF lt])
        assume "scan_candidates f (f @ [c0 ! length f]) (c0 # rest) = None"
        with Cons have "scan_candidates f (f @ [c0 ! length f]) cs = None" by simp
        from IH [OF this] Cons show "P (f @ [c0 ! length f]) (c0 # rest)" by simp
      qed
      with Cons show ?thesis by simp
    qed
  qed
qed

lemma scan_None_all: "scan_candidates old new cs = None \<Longrightarrow> \<forall>c \<in> set cs. startsWith c new"
  by (induction cs) (auto split: if_splits)

lemma scan_null_some: "scan_candidates old new cs = Some None \<Longrightarrow> \<exists>c \<in> set cs. \<not> startsWith c old"
  by (induction cs) (auto split: if_splits)

lemma scan_result: "scan_candidates old new cs = Some (Some r) \<Longrightarrow> r = old"
  by (induction cs) (auto split: if_splits)

lemma scan_all_None:
  "\<forall>c \<in> set cs. startsWith c old \<and> startsWith c new \<Longrightarrow> scan_candidates old new cs = None"
  by (induction cs) auto

lemma getSharedFragment_not_null:
  "\<forall>c \<in> set cs. startsWith c f \<Longrightarrow> getSharedFragment f cs \<noteq> Inr None"
proof (induction f cs rule: getSharedFragment_induct)
  case (Empty f)
  show ?case by (simp add: getSharedFragment.simps [of f])
next
  case (Stop f c0 rest)
  then show ?case by (simp add: getSharedFragment_stop)
next
  case (Step f c0 rest)
  let ?f' = "f @ [c0 ! length f]"
  show ?case
  proof (cases "scan_candidates f ?f' (c0 # rest)")
    case None
    then have "\<forall>c \<in> set (c0 # rest). startsWith c ?f'" by (rule scan_None_all)
    then have "getSharedFragment ?f' (c0 # rest) \<noteq> Inr None" by (rule Step.IH [OF None])
    with None Step.hyps show ?thesis by (simp add: getSharedFragment_step del: scan_candidates.simps)
  next
    case (Some r)
    have "r \<noteq> None"
    proof
      assume "r = None"
      with Some have "\<exists>c \<in> set (c0 # rest). \<not> startsWith c f" by (simp only: scan_null_some)
      with Step.prems show False by blast
    qed
    with Some Step.hyps show ?thesis by (simp add: getSharedFragment_step del: scan_candidates.simps)
  qed
qed

lemma getSharedFragment_null:
  assumes "getSharedFragment f cs = Inr None"
  shows "cs \<noteq> [] \<and> length f < length (hd cs) \<and> (\<exists>c \<in> set cs. \<not> startsWith c f)"
proof -
  from assms have ne: "cs \<noteq> []" by (auto simp: getSharedFragment.simps [of f])
  moreover have "length f < length (hd cs)"
    using assms ne getSharedFragment_stop [of cs f] by (cases "length (hd cs) \<le> length f") auto
  moreover have "\<exists>c \<in> set cs. \<not> startsWith c f"
    using assms getSharedFragment_not_null [of cs f] by blast
  ultimately show ?thesis by blast
qed

lemma getSharedFragment_length:
  "getSharedFragment f cs = Inr (Some r) \<Longrightarrow> length r \<le> max (length f) (length (hd cs))"
proof (induction f cs rule: getSharedFragment_induct)
  case (Empty f)
  then show ?case by (simp add: getSharedFragment.simps [of f])
next
  case (Stop f c0 rest)
  then show ?case by (simp add: getSharedFragment_stop)
next
  case (Step f c0 rest)
  let ?f' = "f @ [c0 ! length f]"
  show ?case
  proof (cases "scan_candidates f ?f' (c0 # rest)")
    case None
    with Step.prems Step.hyps have "getSharedFragment ?f' (c0 # rest) = Inr (Some r)"
      by (simp add: getSharedFragment_step del: scan_candidates.simps)
    from Step.IH [OF None this] Step.hyps show ?thesis by simp
  next
    case (Some x)
    with Step.prems Step.hyps have "x = Some r"
      by (simp add: getSharedFragment_step del: scan_candidates.simps)
    with Some have "r = f" by (simp only: scan_result)
    then show ?thesis by simp
  qed
qed

lemma startsWith_snoc:
  "startsWith c0 f \<Longrightarrow> length f < length c0 \<Longrightarrow> startsWith c0 (f @ [c0 ! length f])"
  by (simp add: startsWith_def take_Suc_conv_app_nth)

lemma startsWith_trans: "startsWith c c0 \<Longrightarrow> startsWith c0 f \<Longrightarrow> startsWith c f"
  by (metis startsWith_def append_eq_conv_conj append_take_drop_id append.assoc)

lemma getSharedFragment_first:
  "startsWith (hd cs) f \<Longrightarrow> \<forall>c \<in> set cs. startsWith c (hd cs) \<Longrightarrow> cs \<noteq> [] \<Longrightarrow>
     getSharedFragment f cs = Inr (Some (hd cs))"
proof (induction f cs rule: getSharedFragment_induct)
  case (Empty f)
  then show ?case by simp
next
  case (Stop f c0 rest)
  then have "f = c0" by (simp add: startsWith_def)
  then show ?case by (simp add: getSharedFragment_stop)
next
  case (Step f c0 rest)
  let ?f' = "f @ [c0 ! length f]"
  have f': "startsWith c0 ?f'" using Step.prems(1) Step.hyps by (simp add: startsWith_snoc)
  have "\<forall>c \<in> set (c0 # rest). startsWith c f \<and> startsWith c ?f'"
  proof
    fix c
    assume "c \<in> set (c0 # rest)"
    with Step.prems(2) have "startsWith c c0" by auto
    then show "startsWith c f \<and> startsWith c ?f'"
      using Step.prems(1) f' by (auto intro: startsWith_trans)
  qed
  then have None: "scan_candidates f ?f' (c0 # rest) = None" by (rule scan_all_None)
  have "getSharedFragment ?f' (c0 # rest) = Inr (Some (hd (c0 # rest)))"
    using Step.IH [OF None] f' Step.prems(2) by simp
  with None Step.hyps show ?case by (simp add: getSharedFragment_step del: scan_candidates.simps)
qed

text \<open>
  C10. For a non-empty candidate list: a fragment at least as long as the first candidate
  is returned unchanged, whatever the other candidates are; \<^verbatim>\<open>null\<close> is returned only
  for a fragment shorter than the first candidate, so after the fragment has been extended,
  and only when some candidate does not start with the fragment; a fragment returned is no
  longer than the longer of the fragment given and the first candidate; and when every
  candidate starts with the first one, which starts with the fragment, the recursion runs
  up to the first candidate, which is returned.
\<close>

theorem getSharedFragment_first_candidate:
  "cs \<noteq> [] \<Longrightarrow>
     (length (hd cs) \<le> length f \<longrightarrow> getSharedFragment f cs = Inr (Some f)) \<and>
     (getSharedFragment f cs = Inr None \<longrightarrow>
        length f < length (hd cs) \<and> (\<exists>c \<in> set cs. \<not> startsWith c f)) \<and>
     (\<forall>r. getSharedFragment f cs = Inr (Some r) \<longrightarrow> length r \<le> max (length f) (length (hd cs))) \<and>
     (startsWith (hd cs) f \<and> (\<forall>c \<in> set cs. startsWith c (hd cs)) \<longrightarrow>
        getSharedFragment f cs = Inr (Some (hd cs)))"
  using getSharedFragment_stop [of cs f] getSharedFragment_null [of f cs]
    getSharedFragment_length [of f cs] getSharedFragment_first [of cs f]
  by blast

theorem getSharedFragment_first_candidate_witness:
  "[''abc'', ''x''] \<noteq> [] \<and> length (hd [''abc'', ''x'']) \<le> length ''abcd'' \<and>
   \<not> startsWith ''x'' ''abcd'' \<and> \<not> startsWith ''abc'' ''abcd'' \<and>
   getSharedFragment ''abcd'' [''abc'', ''x''] = Inr (Some ''abcd'') \<and>
   getSharedFragment ''ab'' [''abc'', ''x''] = Inr None \<and> length ''ab'' < length (hd [''abc'', ''x'']) \<and>
   startsWith (hd [''cat'', ''cats'']) ''c'' \<and> startsWith ''cats'' (hd [''cat'', ''cats'']) \<and>
   getSharedFragment ''c'' [''cat'', ''cats''] = Inr (Some ''cat'')"
proof -
  have null: "getSharedFragment ''ab'' [''abc'', ''x''] = Inr None"
    by (simp add: getSharedFragment.simps [of "''ab''"] slice_def startsWith_def)
  show ?thesis
    using getSharedFragment_first_candidate [of "[''abc'', ''x'']" "''abcd''"]
      getSharedFragment_first_candidate [of "[''abc'', ''x'']" "''ab''"]
      getSharedFragment_first_candidate [of "[''cat'', ''cats'']" "''c''"] null
    by (simp add: startsWith_def)
qed

section \<open>Completion: the providers\<close>

lemma foldl_invoke:
  "foldl (invoke index tokens) acc cbs =
     (fst acc @ concat (map (spec_contribution index tokens) cbs),
      snd acc @ concat (map (spec_reported index tokens) cbs))"
  by (induction cbs arbitrary: acc)
     (simp_all add: invoke_def spec_contribution_def spec_reported_def split: sum.splits)

text \<open>
  C9, as amended. When the tokenizer returns the tokens of the input,
  \<open>collectAutocompleteCandidates\<close> calls every provider, in the order of the list, with the
  index and the tokens computed from the input. A provider that throws adds no candidate and
  is reported to the console; the providers after it are still called. What is returned is
  the concatenation of what the other providers return, filtered to the candidates that
  start with the expression. When the tokenizer throws, the function throws what the
  tokenizer threw, and no provider is called.
\<close>

theorem collectAutocompleteCandidates_isolates_failures:
  "(parse input = Inr tokens \<longrightarrow>
      collectAutocompleteCandidates parse callbacks input =
        Inr (filter (\<lambda>txt. startsWith txt (snd (target tokens input)))
               (concat (map (spec_contribution (fst (target tokens input)) tokens) callbacks)),
             concat (map (spec_reported (fst (target tokens input)) tokens) callbacks))) \<and>
   (parse input = Inl e \<longrightarrow> collectAutocompleteCandidates parse callbacks input = Inl e)"
  by (simp add: collectAutocompleteCandidates_def Let_def foldl_invoke)

theorem collectAutocompleteCandidates_isolates_failures_witness:
  "whole_input ''e'' = Inr [TString ''e''] \<and>
   collectAutocompleteCandidates whole_input [echo_provider, failing_provider, cat_provider] ''e''
     = Inr ([''echo'', ''exit'', ''exec''], [''boom'']) \<and>
   whole_input ''echo ${'' = Inl (Error ''Bad substitution: '') \<and>
   collectAutocompleteCandidates whole_input [echo_provider, failing_provider, cat_provider]
     ''echo ${'' = Inl (Error ''Bad substitution: '')"
proof -
  have t: "whole_input ''e'' = Inr [TString ''e'']"
    and u: "whole_input ''echo ${'' = Inl (Error ''Bad substitution: '')"
    by (simp_all add: whole_input_def)
  show ?thesis
    using collectAutocompleteCandidates_isolates_failures
        [of whole_input "''e''" "[TString ''e'']" "[echo_provider, failing_provider, cat_provider]"
          "Error ''Bad substitution: ''"]
      collectAutocompleteCandidates_isolates_failures
        [of whole_input "''echo ${''" "[]" "[echo_provider, failing_provider, cat_provider]"
          "Error ''Bad substitution: ''"] t u
    by (simp add: spec_contribution_def spec_reported_def target_def trim_def isWhiteSpace_def
        token_at_def toString_def startsWith_def echo_provider_def failing_provider_def
        cat_provider_def)
qed

text \<open>
  The claim as written fails where the tokenizer throws: on the input \<^verbatim>\<open>echo ${\<close> the
  function throws and returns no candidate, although the one provider registered does not
  throw.
\<close>

theorem collectAutocompleteCandidates_tokenizer_throws_counterexample:
  "collectAutocompleteCandidates whole_input [echo_provider] ''echo ${''
     = Inl (Error ''Bad substitution: '') \<and>
   fn echo_provider 0 [TString ''echo ${''] (args echo_provider) = Inr [''echo'', ''exit'']"
  by (simp add: collectAutocompleteCandidates_def whole_input_def echo_provider_def)

section \<open>Incomplete input: quotes\<close>

lemma length_match_all: "length (match_all c input) = count_list input c"
  by (induction input) (simp_all add: match_all_def)

text \<open>
  C2, as amended. An input that is not blank is judged incomplete when the number of its
  single quotes is odd, or the number of its double quotes is odd: each count is of every
  occurrence of the character, one that follows a backslash included.
\<close>

theorem isIncompleteInput_counts_every_quote:
  "trim input \<noteq> [] \<Longrightarrow>
   odd (count_list input (CHR 0x27)) \<or> odd (count_list input (CHR 0x22)) \<Longrightarrow>
   isIncompleteInput input"
  by (auto simp: isIncompleteInput_def length_match_all odd_iff_mod_2_eq_one)

theorem isIncompleteInput_counts_every_quote_witness:
  "trim (''echo '' @ [CHR 0x5C, CHR 0x27]) \<noteq> [] \<and>
   odd (count_list (''echo '' @ [CHR 0x5C, CHR 0x27]) (CHR 0x27)) \<and>
   isIncompleteInput (''echo '' @ [CHR 0x5C, CHR 0x27])"
proof -
  have t: "trim (''echo '' @ [CHR 0x5C, CHR 0x27]) \<noteq> []"
    by (simp add: trim_def isWhiteSpace_def)
  have c: "odd (count_list (''echo '' @ [CHR 0x5C, CHR 0x27]) (CHR 0x27))"
    by simp
  from isIncompleteInput_counts_every_quote [OF t disjI1 [OF c]] t c show ?thesis by blast
qed

text \<open>
  The claim as written fails. The input \<^verbatim>\<open>echo \'\<close> has no unescaped quote, does not end
  with an operator or a backslash, and is judged incomplete; the input \<^verbatim>\<open>a\''\<close> has one
  unescaped single quote and is judged complete.
\<close>

theorem isIncompleteInput_escaped_quote_counterexample:
  "isIncompleteInput (''echo '' @ [CHR 0x5C, CHR 0x27]) \<and>
   spec_unescaped_count (CHR 0x27) (''echo '' @ [CHR 0x5C, CHR 0x27]) = 0 \<and>
   spec_unescaped_count (CHR 0x22) (''echo '' @ [CHR 0x5C, CHR 0x27]) = 0 \<and>
   trim (last (split_ops [] (''echo '' @ [CHR 0x5C, CHR 0x27]))) \<noteq> [] \<and>
   \<not> endsWith (''echo '' @ [CHR 0x5C, CHR 0x27]) [CHR 0x5C] \<and>
   \<not> isIncompleteInput (''a'' @ [CHR 0x5C, CHR 0x27, CHR 0x27]) \<and>
   spec_unescaped_count (CHR 0x27) (''a'' @ [CHR 0x5C, CHR 0x27, CHR 0x27]) = 1"
  by (simp add: isIncompleteInput_def match_all_def trim_def isWhiteSpace_def endsWith_def)

section \<open>LocalEchoController: what the painting leaves unchanged\<close>

lemma clearInput_frame: "clearInput s = s\<lparr>term_writes := term_writes (clearInput s)\<rparr>"
  by (simp add: clearInput_def Let_def write_times_def term_write_def)

lemma print_frame: "print m s = s\<lparr>term_writes := term_writes (print m s)\<rparr>"
  by (simp add: print_def Let_def term_write_def)

lemma println_frame: "println m s = s\<lparr>term_writes := term_writes (println m s)\<rparr>"
  by (simp add: println_def print_def Let_def term_write_def)

lemma setInput_frame:
  "setInput t b s =
     s\<lparr>term_writes := term_writes (setInput t b s), u_cursor := min (u_cursor s) (length t),
       u_input := t\<rparr>"
  by (simp add: setInput_def clearInput_def print_def Let_def write_times_def term_write_def min_def)

lemma setCursor_frame:
  "setCursor n s =
     s\<lparr>term_writes := term_writes (setCursor n s),
       u_cursor := nat (max 0 (min n (int (length (u_input s)))))\<rparr>"
  by (simp add: setCursor_def Let_def write_times_def min_def max_def)

lemma setInput_fields [simp]:
  "u_input (setInput t b s) = t"
  "u_cursor (setInput t b s) = min (u_cursor s) (length t)"
  by (subst setInput_frame, simp)+

lemma setCursor_fields [simp]:
  "u_input (setCursor n s) = u_input s"
  "u_cursor (setCursor n s) = nat (max 0 (min n (int (length (u_input s)))))"
  by (subst setCursor_frame, simp)+

lemma clearInput_fields [simp]:
  "u_input (clearInput s) = u_input s" "u_cursor (clearInput s) = u_cursor s"
  by (subst clearInput_frame, simp)+

lemma print_fields [simp]:
  "u_input (print m s) = u_input s" "u_cursor (print m s) = u_cursor s"
  "u_input (println m s) = u_input s" "u_cursor (println m s) = u_cursor s"
  by (simp_all add: println_def print_def Let_def term_write_def)

lemma term_write_fields [simp]:
  "u_input (term_write d s) = u_input s" "u_cursor (term_write d s) = u_cursor s"
  by (simp_all add: term_write_def)

section \<open>LocalEchoController: the cursor stays in the buffer\<close>

lemma cursor_in_range_setInput: "cursor_in_range (setInput t b s)"
  by (simp add: cursor_in_range_def)

lemma cursor_in_range_setCursor: "cursor_in_range (setCursor n s)"
  by (simp add: cursor_in_range_def)

lemma cursor_in_range_handleCursorMove:
  "cursor_in_range s \<Longrightarrow> cursor_in_range (handleCursorMove dir s)"
  by (simp add: handleCursorMove_def Let_def cursor_in_range_setCursor)

lemma cursor_in_range_handleCursorErase:
  "cursor_in_range s \<Longrightarrow> cursor_in_range (handleCursorErase backspace s)"
  by (simp add: handleCursorErase_def Let_def cursor_in_range_setInput)

lemma cursor_in_range_handleCursorInsert: "cursor_in_range (handleCursorInsert data s)"
  by (simp add: handleCursorInsert_def Let_def cursor_in_range_setInput)

lemma cursor_in_range_read: "cursor_in_range (read p c s)"
  by (simp add: read_def cursor_in_range_def)

lemma cursor_in_range_simple:
  "cursor_in_range s \<Longrightarrow> cursor_in_range (readChar_then p k s)"
  "cursor_in_range s \<Longrightarrow> cursor_in_range (readChar p s)"
  "cursor_in_range s \<Longrightarrow> cursor_in_range (abortRead reason s)"
  "cursor_in_range s \<Longrightarrow> cursor_in_range (handleReadComplete s)"
  "cursor_in_range s \<Longrightarrow> cursor_in_range (print m s)"
  "cursor_in_range s \<Longrightarrow> cursor_in_range (println m s)"
  "cursor_in_range s \<Longrightarrow> cursor_in_range (clearInput s)"
  "cursor_in_range s \<Longrightarrow> cursor_in_range (term_write d s)"
  "cursor_in_range s \<Longrightarrow> cursor_in_range (addAutocompleteHandler f xs s)"
  "cursor_in_range s \<Longrightarrow> cursor_in_range (attach term_size s)"
  by (simp_all add: cursor_in_range_def readChar_def readChar_then_def abortRead_def
      handleReadComplete_def Let_def term_write_def addAutocompleteHandler_def attach_def)

lemma cursor_in_range_new:
  "cursor_in_range (LocalEchoController_new term_size historySize maxEntries incomplete)"
  by (simp add: cursor_in_range_def LocalEchoController_new_def attach_def)

lemma cursor_in_range_resume: "cursor_in_range (resume c s)"
  by (simp add: resume_def Let_def cursor_in_range_setInput)

lemma cursor_in_range_handleTermResize: "cursor_in_range (handleTermResize d s)"
  by (simp add: handleTermResize_def Let_def cursor_in_range_setInput)

lemma printWide_rows_fields:
  assumes "printWide_rows items w wc wr r i s = Some s'"
  shows "u_input s' = u_input s \<and> u_cursor s' = u_cursor s"
proof (rule printWide_rows.raw_induct
    [where P = "\<lambda>items w wc wr r i s s'. u_input s' = u_input s \<and> u_cursor s' = u_cursor s",
      OF _ assms])
  fix rows :: "string list \<Rightarrow> nat \<Rightarrow> jsnum \<Rightarrow> jsnum \<Rightarrow> nat \<Rightarrow> nat \<Rightarrow> 'a session \<Rightarrow> 'a session option"
  fix items w wc wr r i and s y :: "'a session"
  assume IH: "\<And>items w wc wr r i s y. rows items w wc wr r i s = Some y \<Longrightarrow>
      u_input y = u_input s \<and> u_cursor y = u_cursor s"
  assume step: "(if less_num r wr
      then case printWide_cols items w wc 0 i [] of
             None \<Rightarrow> None
           | Some (i', rowStr) \<Rightarrow> rows items w wc wr (r + 1) i' (println rowStr s)
      else Some s) = Some y"
  show "u_input y = u_input s \<and> u_cursor y = u_cursor s"
  proof (cases "less_num r wr")
    case False
    with step show ?thesis by simp
  next
    case True
    with step obtain i' rowStr where "rows items w wc wr (r + 1) i' (println rowStr s) = Some y"
      by (auto split: option.splits)
    from IH [OF this] show ?thesis by simp
  qed
qed

lemma cursor_in_range_printWide:
  "cursor_in_range s \<Longrightarrow> printWide items padding s = Some r \<Longrightarrow> cursor_in_range (state_of r)"
  by (auto simp: printWide_def Let_def cursor_in_range_def split: if_splits
      dest: printWide_rows_fields)


lemma cursor_in_range_printAndRestartPrompt:
  "printAndRestartPrompt cb s = Some r \<Longrightarrow> cursor_in_range (state_of r)"
proof (cases cb)
  case (PrintCandidates cands)
  let ?s1 = "term_write [CHR 0x0D, CHR 0x0A] (setCursor (int (length (u_input s))) s)"
  assume run: "printAndRestartPrompt cb s = Some r"
  have s1: "cursor_in_range ?s1"
    by (simp add: cursor_in_range_simple cursor_in_range_setCursor)
  show ?thesis
  proof (cases "printWide cands 2 ?s1")
    case None
    with run PrintCandidates show ?thesis
      by (simp add: printAndRestartPrompt_def Let_def and_then_def)
  next
    case (Some r')
    note inv = cursor_in_range_printWide [OF s1 Some]
    show ?thesis
    proof (cases r')
      case (Return s2)
      with run PrintCandidates Some show ?thesis
        by (auto simp: printAndRestartPrompt_def Let_def and_then_def cursor_in_range_resume)
    next
      case (Throw e s2)
      with run PrintCandidates Some inv show ?thesis
        by (auto simp: printAndRestartPrompt_def Let_def and_then_def)
    qed
  qed
next
  case (AskThenPrint cands)
  assume "printAndRestartPrompt cb s = Some r"
  with AskThenPrint show ?thesis
    by (auto simp: printAndRestartPrompt_def Let_def cursor_in_range_simple cursor_in_range_setCursor)
qed

lemma cursor_in_range_run_then:
  "cursor_in_range s \<Longrightarrow> run_then k yn s = Some r \<Longrightarrow> cursor_in_range (state_of r)"
proof (cases k)
  case NoThen
  assume "cursor_in_range s" "run_then k yn s = Some r"
  with NoThen show ?thesis by (auto simp: run_then_def)
next
  case (DisplayAll cands c0)
  assume inv: "cursor_in_range s" and run: "run_then k yn s = Some r"
  show ?thesis
  proof (cases "yn = ''y'' \<or> yn = ''Y''")
    case False
    with run DisplayAll show ?thesis by (auto simp: run_then_def cursor_in_range_resume)
  next
    case True
    show ?thesis
    proof (cases "printWide cands 2 s")
      case None
      with run DisplayAll True show ?thesis by (auto simp: run_then_def)
    next
      case (Some r')
      note inv' = cursor_in_range_printWide [OF inv Some]
      from run DisplayAll True Some inv' show ?thesis
        by (cases r') (auto simp: run_then_def cursor_in_range_resume)
    qed
  qed
qed


lemma cursor_in_range_console: "cursor_in_range (s\<lparr>console := c\<rparr>) = cursor_in_range s"
  by (simp add: cursor_in_range_def)

lemma cursor_in_range_handleTab:
  "cursor_in_range s \<Longrightarrow> handleTab parse s = Some r \<Longrightarrow> cursor_in_range (state_of r)"
  unfolding handleTab_def Let_def
  by (auto simp: cursor_in_range_handleCursorInsert cursor_in_range_console
      split: if_splits sum.splits option.splits
      dest: cursor_in_range_printAndRestartPrompt)

lemma cursor_in_range_history: "cursor_in_range (s\<lparr>history := h\<rparr>) = cursor_in_range s"
  by (simp add: cursor_in_range_def)


lemma cursor_in_range_handleEscape:
  "cursor_in_range s \<Longrightarrow> cursor_in_range (handleEscape rest s)"
  unfolding handleEscape_def Let_def
  by (auto simp: cursor_in_range_setCursor cursor_in_range_history cursor_in_range_handleCursorMove
      cursor_in_range_handleCursorErase split: option.splits)

lemma cursor_in_range_handleSpecial:
  "cursor_in_range s \<Longrightarrow> handleSpecial parse data s = Some r \<Longrightarrow> cursor_in_range (state_of r)"
  unfolding handleSpecial_def Let_def
  by (auto simp: cursor_in_range_handleCursorInsert cursor_in_range_simple
      cursor_in_range_handleCursorErase split: if_splits
      dest: cursor_in_range_handleTab)
     (simp add: cursor_in_range_def)

lemma cursor_in_range_handleData:
  "cursor_in_range s \<Longrightarrow> handleData parse data s = Some r \<Longrightarrow> cursor_in_range (state_of r)"
  unfolding handleData_def Let_def
  by (auto simp: cursor_in_range_handleCursorInsert cursor_in_range_handleEscape
      split: if_splits list.splits dest: cursor_in_range_handleSpecial)


lemma cursor_in_range_handleData_each:
  "cursor_in_range s \<Longrightarrow> handleData_each parse cs s = Some r \<Longrightarrow> cursor_in_range (state_of r)"
proof (induction cs arbitrary: s)
  case Nil
  then show ?case by auto
next
  case (Cons c cs)
  show ?case
  proof (cases "handleData parse [c] s")
    case None
    with Cons.prems show ?thesis by (simp add: and_then_def)
  next
    case (Some r')
    note inv = cursor_in_range_handleData [OF Cons.prems(1) Some]
    show ?thesis
    proof (cases r')
      case (Return s')
      with Some Cons.prems(2) have "handleData_each parse cs s' = Some r" by (simp add: and_then_def)
      with inv Return show ?thesis by (auto intro: Cons.IH)
    next
      case (Throw e s')
      with Some Cons.prems(2) inv show ?thesis by (auto simp: and_then_def)
    qed
  qed
qed

lemma cursor_in_range_handleTermData:
  assumes inv: "cursor_in_range s" and run: "handleTermData parse data s = Some r"
  shows "cursor_in_range (state_of r)"
proof (cases "u_active s")
  case False
  with run inv show ?thesis by (auto simp: handleTermData_def)
next
  case True
  show ?thesis
  proof (cases "u_activeCharPrompt s")
    case (Some cp)
    let ?s2 = "term_write [CHR 0x0D, CHR 0x0A]
                 (s\<lparr>settled := settled s @ [CharResolved data], u_activeCharPrompt := None\<rparr>)"
    from inv have "cursor_in_range ?s2" by (simp add: cursor_in_range_def)
    moreover from run True Some have "run_then (andThen cp) data ?s2 = Some r"
      by (simp add: handleTermData_def Let_def)
    ultimately show ?thesis by (rule cursor_in_range_run_then)
  next
    case None
    with run True inv show ?thesis
      by (auto simp: handleTermData_def Let_def split: if_splits
          dest: cursor_in_range_handleData cursor_in_range_handleData_each)
  qed
qed

lemma reachable_cursor_in_range: "reachable parse s \<Longrightarrow> cursor_in_range s"
proof (induction rule: reachable.induct)
  case (r_new term_size historySize maxEntries incomplete)
  show ?case by (rule cursor_in_range_new)
qed (auto simp: cursor_in_range_simple cursor_in_range_read cursor_in_range_setInput
    cursor_in_range_setCursor cursor_in_range_handleCursorMove cursor_in_range_handleCursorErase
    cursor_in_range_handleCursorInsert cursor_in_range_handleTermResize
    dest: cursor_in_range_printWide cursor_in_range_printAndRestartPrompt
      cursor_in_range_handleTermData cursor_in_range_handleData)

lemma handleCursorMove_cursor:
  "u_cursor s \<le> length (u_input s) \<Longrightarrow>
   u_cursor (handleCursorMove dir s) =
     nat (max 0 (min (int (u_cursor s) + dir) (int (length (u_input s)))))"
  by (simp add: handleCursorMove_def Let_def min_def max_def)

lemma ctrl_c_resets:
  "map_option u_input (returned (handleSpecial parse [CHR 0x03] s)) = Some [] \<and>
   map_option u_cursor (returned (handleSpecial parse [CHR 0x03] s)) = Some 0"
  by (simp add: handleSpecial_def Let_def returned_def)

text \<open>
  C6. In every state that the controller reaches the cursor is at most the length of the
  input (and, a natural number, at least 0). From a state where that holds, \<open>setCursor\<close>,
  \<open>setInput\<close>, \<open>handleCursorMove\<close>, \<open>handleCursorErase\<close>, \<open>handleCursorInsert\<close>, the arrows
  up and down through the history, the key CTRL+C and the start of a read leave a state
  where it holds. A cursor asked for outside the input is clamped: \<open>setCursor\<close> and
  \<open>handleCursorMove\<close> are total and raise nothing.
\<close>

theorem cursor_stays_in_range:
  "(reachable parse s \<longrightarrow> u_cursor s \<le> length (u_input s)) \<and>
   (u_cursor s \<le> length (u_input s) \<longrightarrow>
      cursor_in_range (setCursor newCursor s) \<and>
      cursor_in_range (setInput newInput clear s) \<and>
      cursor_in_range (handleCursorMove dir s) \<and>
      cursor_in_range (handleCursorErase backspace s) \<and>
      cursor_in_range (handleCursorInsert data s) \<and>
      cursor_in_range (handleEscape ''[A'' s) \<and>
      cursor_in_range (handleEscape ''[B'' s) \<and>
      map_option u_input (returned (handleSpecial parse [CHR 0x03] s)) = Some [] \<and>
      map_option u_cursor (returned (handleSpecial parse [CHR 0x03] s)) = Some 0 \<and>
      cursor_in_range (read p c s) \<and>
      u_cursor (handleCursorMove dir s) =
        nat (max 0 (min (int (u_cursor s) + dir) (int (length (u_input s)))))) \<and>
   u_cursor (setCursor newCursor s) = nat (max 0 (min newCursor (int (length (u_input s)))))"
proof (intro conjI impI)
  assume "reachable parse s"
  then have "cursor_in_range s" by (rule reachable_cursor_in_range)
  then show "u_cursor s \<le> length (u_input s)" by (simp add: cursor_in_range_def)
next
  assume "u_cursor s \<le> length (u_input s)"
  then have inv: "cursor_in_range s" by (simp add: cursor_in_range_def)
  show "cursor_in_range (setCursor newCursor s)" by (rule cursor_in_range_setCursor)
  show "cursor_in_range (setInput newInput clear s)" by (rule cursor_in_range_setInput)
  show "cursor_in_range (handleCursorMove dir s)" using inv by (rule cursor_in_range_handleCursorMove)
  show "cursor_in_range (handleCursorErase backspace s)"
    using inv by (rule cursor_in_range_handleCursorErase)
  show "cursor_in_range (handleCursorInsert data s)" by (rule cursor_in_range_handleCursorInsert)
  show "cursor_in_range (handleEscape ''[A'' s)" using inv by (rule cursor_in_range_handleEscape)
  show "cursor_in_range (handleEscape ''[B'' s)" using inv by (rule cursor_in_range_handleEscape)
  show "map_option u_input (returned (handleSpecial parse [CHR 0x03] s)) = Some []"
    using ctrl_c_resets by blast
  show "map_option u_cursor (returned (handleSpecial parse [CHR 0x03] s)) = Some 0"
    using ctrl_c_resets by blast
  show "cursor_in_range (read p c s)" by (rule cursor_in_range_read)
  show "u_cursor (handleCursorMove dir s) =
      nat (max 0 (min (int (u_cursor s) + dir) (int (length (u_input s)))))"
    using \<open>u_cursor s \<le> length (u_input s)\<close> by (rule handleCursorMove_cursor)
next
  show "u_cursor (setCursor newCursor s) = nat (max 0 (min newCursor (int (length (u_input s)))))"
    by simp
qed

theorem cursor_stays_in_range_witness:
  "reachable no_tokens (handleCursorInsert ''hi'' (read ''$ '' ''> '' (fresh 80))) \<and>
   u_input (handleCursorInsert ''hi'' (read ''$ '' ''> '' (fresh 80))) = ''hi'' \<and>
   u_cursor (handleCursorInsert ''hi'' (read ''$ '' ''> '' (fresh 80))) = 2 \<and>
   u_cursor (setCursor 7 (handleCursorInsert ''hi'' (read ''$ '' ''> '' (fresh 80)))) = 2 \<and>
   u_cursor (handleCursorMove (- 5) (handleCursorInsert ''hi'' (read ''$ '' ''> '' (fresh 80)))) = 0 \<and>
   cursor_in_range (handleCursorErase True (handleCursorInsert ''hi'' (read ''$ '' ''> '' (fresh 80))))"
proof -
  let ?s = "handleCursorInsert ''hi'' (read ''$ '' ''> '' (fresh 80))"
  have r: "reachable no_tokens ?s"
    unfolding fresh_def by (intro reachable.intros)
  have i: "u_input ?s = ''hi''" and c: "u_cursor ?s = 2"
    by (simp_all add: handleCursorInsert_def read_def Let_def substr_def substr2_def term_write_def)
  show ?thesis
    using cursor_stays_in_range [of no_tokens ?s 7 "[]" True "- 5" True "[]" "[]" "[]"] r i c
    by simp
qed

section \<open>LocalEchoController: the ENTER key\<close>

text \<open>
  C3, as amended. In an active read with no single-character read pending, whose input is
  judged complete, the ENTER key resolves the promise of the read with exactly the input and
  makes the controller inactive. The input and the cursor keep their values; the next
  \<open>read\<close> sets them to the empty string and 0.
\<close>

theorem enter_resolves_read:
  assumes "u_active s" and "u_activeCharPrompt s = None" and "u_activePrompt s = Some p"
    and "\<not> isIncompleteInputFn s (u_input s)"
  shows "handleTermData parse [CHR 0x0D] s = Some (Return (handleReadComplete s)) \<and>
     settled (handleReadComplete s) = settled s @ [ReadResolved (u_input s)] \<and>
     u_activePrompt (handleReadComplete s) = None \<and> \<not> u_active (handleReadComplete s) \<and>
     u_input (handleReadComplete s) = u_input s \<and> u_cursor (handleReadComplete s) = u_cursor s \<and>
     u_input (read p' c' (handleReadComplete s)) = [] \<and>
     u_cursor (read p' c' (handleReadComplete s)) = 0"
proof -
  have "handleTermData parse [CHR 0x0D] s = Some (Return (handleReadComplete s))"
    using assms by (simp add: handleTermData_def handleData_def handleSpecial_def Let_def)
  moreover have "settled (handleReadComplete s) = settled s @ [ReadResolved (u_input s)]"
    and "u_activePrompt (handleReadComplete s) = None" and "\<not> u_active (handleReadComplete s)"
    and "u_input (handleReadComplete s) = u_input s"
    and "u_cursor (handleReadComplete s) = u_cursor s"
    using assms by (simp_all add: handleReadComplete_def Let_def term_write_def)
  moreover have "u_input (read p' c' (handleReadComplete s)) = []"
    and "u_cursor (read p' c' (handleReadComplete s)) = 0"
    by (simp_all add: read_def)
  ultimately show ?thesis by blast
qed

text \<open>
  The claim as written fails twice. After a read with the prompt \<^verbatim>\<open>$ \<close>, the keys h and i
  and the ENTER key, the promise is resolved with \<^verbatim>\<open>hi\<close>, and the input is still \<^verbatim>\<open>hi\<close>
  and the cursor still 2. And when a single-character read is pending after the keys h and
  i, the ENTER key resolves that read with the carriage return: the read of the line stays
  pending and the controller active.
\<close>

theorem enter_keeps_buffer_counterexample:
  "map_option settled (returned (and_then typed_hi (handleTermData no_tokens [CHR 0x0D])))
     = Some [ReadResolved ''hi''] \<and>
   map_option u_input (returned (and_then typed_hi (handleTermData no_tokens [CHR 0x0D])))
     = Some ''hi'' \<and>
   map_option u_cursor (returned (and_then typed_hi (handleTermData no_tokens [CHR 0x0D])))
     = Some 2 \<and>
   map_option settled
     (returned (handleTermData no_tokens [CHR 0x0D] (readChar ''? '' (state_of (the typed_hi)))))
     = Some [CharResolved [CHR 0x0D]] \<and>
   map_option u_active
     (returned (handleTermData no_tokens [CHR 0x0D] (readChar ''? '' (state_of (the typed_hi)))))
     = Some True \<and>
   map_option u_activePrompt
     (returned (handleTermData no_tokens [CHR 0x0D] (readChar ''? '' (state_of (the typed_hi)))))
     = Some (Some \<lparr>prompt = ''$ '', continuationPrompt = ''> ''\<rparr>)"
  by code_simp

theorem enter_resolves_read_witness:
  "u_active (state_of (the typed_hi)) \<and>
   u_activeCharPrompt (state_of (the typed_hi)) = None \<and>
   u_activePrompt (state_of (the typed_hi)) = Some \<lparr>prompt = ''$ '', continuationPrompt = ''> ''\<rparr> \<and>
   u_input (state_of (the typed_hi)) = ''hi'' \<and>
   handleTermData no_tokens [CHR 0x0D] (state_of (the typed_hi))
     = Some (Return (handleReadComplete (state_of (the typed_hi)))) \<and>
   settled (handleReadComplete (state_of (the typed_hi))) = [ReadResolved ''hi''] \<and>
   u_input (handleReadComplete (state_of (the typed_hi))) = ''hi'' \<and>
   u_cursor (handleReadComplete (state_of (the typed_hi))) = 2 \<and>
   u_input (read ''$ '' ''> '' (handleReadComplete (state_of (the typed_hi)))) = []"
proof -
  let ?s = "state_of (the typed_hi)"
  have a: "u_active ?s" by code_simp
  have b: "u_activeCharPrompt ?s = None" by code_simp
  have c: "u_activePrompt ?s = Some \<lparr>prompt = ''$ '', continuationPrompt = ''> ''\<rparr>" by code_simp
  have d: "\<not> isIncompleteInputFn ?s (u_input ?s)" by code_simp
  have e: "u_input ?s = ''hi''" by code_simp
  have f: "u_cursor ?s = 2" by code_simp
  have g: "settled ?s = []" by code_simp
  show ?thesis
    using enter_resolves_read [OF a b c d, of no_tokens "''$ ''" "''> ''"] a b c e f g by simp
qed

section \<open>LocalEchoController: a resize\<close>

lemma setInput_writes_appended:
  "term_writes (setInput t False s) =
     term_writes s @ term_writes (setInput t False (s\<lparr>term_writes := []\<rparr>))"
  by (simp add: setInput_def print_def Let_def write_times_def term_write_def applyPrompts_def
      applyPromptOffset_def)

text \<open>
  C7. From a state whose cursor is within the input, a resize leaves the input and the
  cursor as they are: only the cached size of the terminal and what is written to the
  terminal change. What is written is the clearing of the input computed with the old size,
  then the painting of the same input, without another clearing, computed with the new size.
\<close>

theorem handleTermResize_keeps_buffer_and_cursor:
  fixes d :: termSize
  shows "u_cursor s \<le> length (u_input s) \<Longrightarrow>
   u_input (handleTermResize d s) = u_input s \<and>
   u_cursor (handleTermResize d s) = u_cursor s \<and>
   handleTermResize d s = s\<lparr>term_writes := term_writes (handleTermResize d s), u_termSize := d\<rparr> \<and>
   term_writes (handleTermResize d s) =
     term_writes (clearInput s)
       @ term_writes (setInput (u_input s) False (s\<lparr>u_termSize := d, term_writes := []\<rparr>))"
proof -
  assume inv: "u_cursor s \<le> length (u_input s)"
  let ?s2 = "(clearInput s)\<lparr>u_termSize := d\<rparr>"
  have d: "\<lparr>cols = cols d, rows = rows d\<rparr> = d" by simp
  have eq: "handleTermResize d s = setInput (u_input s) False ?s2"
    by (simp add: handleTermResize_def Let_def d)
  have s2: "?s2 = s\<lparr>term_writes := term_writes (clearInput s), u_termSize := d\<rparr>"
    by (subst clearInput_frame) simp
  have i: "u_input (handleTermResize d s) = u_input s" by (simp add: eq)
  have c: "u_cursor (handleTermResize d s) = u_cursor s" using inv by (simp add: eq)
  have fr: "handleTermResize d s = s\<lparr>term_writes := term_writes (handleTermResize d s), u_termSize := d\<rparr>"
    unfolding eq by (subst setInput_frame) (use inv in \<open>simp add: s2 min_def\<close>)
  have w: "term_writes (handleTermResize d s) =
     term_writes (clearInput s)
       @ term_writes (setInput (u_input s) False (s\<lparr>u_termSize := d, term_writes := []\<rparr>))"
    unfolding eq by (subst setInput_writes_appended) (simp add: s2)
  from i c fr w show ?thesis by blast
qed

theorem handleTermResize_keeps_buffer_and_cursor_witness:
  "u_cursor (state_of (the typed_hi)) \<le> length (u_input (state_of (the typed_hi))) \<and>
   u_input (handleTermResize \<lparr>cols = 1, rows = 5\<rparr> (state_of (the typed_hi))) = ''hi'' \<and>
   u_cursor (handleTermResize \<lparr>cols = 1, rows = 5\<rparr> (state_of (the typed_hi))) = 2 \<and>
   u_termSize (handleTermResize \<lparr>cols = 1, rows = 5\<rparr> (state_of (the typed_hi))) = \<lparr>cols = 1, rows = 5\<rparr>"
proof -
  let ?s = "state_of (the typed_hi)"
  have e: "u_input ?s = ''hi''" by code_simp
  have f: "u_cursor ?s = 2" by code_simp
  have inv: "u_cursor ?s \<le> length (u_input ?s)" by (simp add: e f)
  note t = handleTermResize_keeps_buffer_and_cursor [OF inv, of "\<lparr>cols = 1, rows = 5\<rparr>"]
  from t have i: "u_input (handleTermResize \<lparr>cols = 1, rows = 5\<rparr> ?s) = u_input ?s"
    and c: "u_cursor (handleTermResize \<lparr>cols = 1, rows = 5\<rparr> ?s) = u_cursor ?s"
    and fr: "handleTermResize \<lparr>cols = 1, rows = 5\<rparr> ?s =
      ?s\<lparr>term_writes := term_writes (handleTermResize \<lparr>cols = 1, rows = 5\<rparr> ?s),
         u_termSize := \<lparr>cols = 1, rows = 5\<rparr>\<rparr>"
    by blast+
  have "u_termSize (handleTermResize \<lparr>cols = 1, rows = 5\<rparr> ?s) = \<lparr>cols = 1, rows = 5\<rparr>"
    by (subst fr) simp
  with inv i c e f show ?thesis by simp
qed

section \<open>LocalEchoController: the wide listing\<close>

lemma printWide_rows_forever: "printWide_rows items w wc Infinity r i s = None"
proof (rule ccontr)
  assume "printWide_rows items w wc Infinity r i s \<noteq> None"
  then obtain y where run: "printWide_rows items w wc Infinity r i s = Some y" by blast
  have "Infinity \<noteq> Infinity"
  proof (rule printWide_rows.raw_induct
      [where P = "\<lambda>items w wc wr r i s y. wr \<noteq> Infinity", OF _ run])
    fix rows :: "string list \<Rightarrow> nat \<Rightarrow> jsnum \<Rightarrow> jsnum \<Rightarrow> nat \<Rightarrow> nat \<Rightarrow> 'a session \<Rightarrow> 'a session option"
    fix items w wc wr r i and s y :: "'a session"
    assume IH: "\<And>items w wc wr r i s y. rows items w wc wr r i s = Some y \<Longrightarrow> wr \<noteq> Infinity"
    assume step: "(if less_num r wr
      then case printWide_cols items w wc 0 i [] of
             None \<Rightarrow> None
           | Some (i', rowStr) \<Rightarrow> rows items w wc wr (r + 1) i' (println rowStr s)
      else Some s) = Some y"
    show "wr \<noteq> Infinity"
    proof
      assume inf: "wr = Infinity"
      with step obtain i' rowStr where "rows items w wc Infinity (r + 1) i' (println rowStr s) = Some y"
        by (auto simp: less_num_def split: option.splits)
      from IH [OF this] show False by simp
    qed
  qed
  then show False by simp
qed

lemma printWide_too_narrow:
  "items \<noteq> [] \<Longrightarrow> cols (u_termSize s) < itemWidth_of items padding \<Longrightarrow>
   printWide items padding s = None"
  by (simp add: printWide_def Let_def floor_div_def ceil_div_def printWide_rows_forever)

text \<open>
  C5. The claim: the number of columns is at least 1, so the listing has finitely many
  rows even when the widest item and the padding exceed the width of the terminal. The code
  does not clamp: for the items \<^verbatim>\<open>a_very_long_filename\<close> and \<^verbatim>\<open>x\<close>, the padding 2 and a
  terminal of 20 columns the number of columns is 0, the number of rows is \<^verbatim>\<open>Infinity\<close>, and the loop over
  the rows does not end.
\<close>

theorem printWide_no_column:
  "floor_div 20 (itemWidth_of [''a_very_long_filename'', ''x''] 2) = Num 0 \<and>
   ceil_div (length [''a_very_long_filename'', ''x'']) (Num 0) = Infinity \<and>
   printWide [''a_very_long_filename'', ''x''] 2 (fresh 20) = None"
proof -
  have w: "itemWidth_of [''a_very_long_filename'', ''x''] 2 = 22" by (simp add: itemWidth_of_def)
  have "printWide [''a_very_long_filename'', ''x''] 2 (fresh 20) = None"
    by (rule printWide_too_narrow) (simp_all add: w fresh_def LocalEchoController_new_def attach_def)
  then show ?thesis by (simp add: w floor_div_def ceil_div_def)
qed

end
